theory Spec2Isabelle
  imports Main "HOL-Library.List_Lexorder" "HOL-Library.Char_ord"
begin

text \<open>
  The entry point of gometalinter (main.go: \<open>Run\<close>, \<open>processConfig\<close>,
  \<open>resolvePaths\<close>, \<open>lintersFromConfig\<close>, \<open>replaceWithMegacheck\<close> and the
  environment set-up) and the part of the command-line front end that fills the
  configuration (\<open>sortKeys\<close>, the flag \<open>--sort\<close>, \<open>loadConfig\<close>), as functions
  over an explicit process state. The global \<open>Configuration\<close> is passed to the
  functions and returned by those that write to it. What the program takes from its
  libraries and from the other files of the package is a parameter or is written out
  from the library's behaviour, as said at each place.
\<close>

section \<open>Strings\<close>

text \<open>
  Go strings are byte sequences; they are modelled as \<open>string\<close> (a list of
  characters). The functions of package \<open>strings\<close> that main.go uses are written out.
\<close>

definition strings_HasPrefix :: "string \<Rightarrow> string \<Rightarrow> bool" where
  "strings_HasPrefix s p = (take (length p) s = p)"

definition strings_HasSuffix :: "string \<Rightarrow> string \<Rightarrow> bool" where
  "strings_HasSuffix s p = (length p \<le> length s \<and> drop (length s - length p) s = p)"

text \<open>\<open>strings.Join(elems, sep)\<close>.\<close>

fun strings_Join :: "string list \<Rightarrow> string \<Rightarrow> string" where
  "strings_Join [] sep = []"
| "strings_Join [x] sep = x"
| "strings_Join (x # y # ys) sep = x @ sep @ strings_Join (y # ys) sep"

section \<open>Linters and the configuration\<close>

text \<open>
  \<open>LinterConfig\<close> and \<open>Linter\<close> are declared outside main.go; the fields are the ones
  the command-line front end reads (\<open>Command\<close>, \<open>Pattern\<close>, \<open>InstallFrom\<close>,
  \<open>IsFast\<close>, and \<open>Name\<close> on a \<open>Linter\<close>, which embeds its \<open>LinterConfig\<close>).
\<close>

record LinterConfig =
  Command :: string
  Pattern :: string
  InstallFrom :: string
  IsFast :: bool

record Linter = LinterConfig +
  Name :: string

definition zeroLinterConfig :: LinterConfig where
  "zeroLinterConfig = \<lparr>Command = [], Pattern = [], InstallFrom = [], IsFast = False\<rparr>"

text \<open>A parsed output template and a compiled regular expression, named by their source text.\<close>

datatype Template = Template string

datatype Regexp = Regexp string

text \<open>The fields of \<open>Config\<close> that main.go reads or writes.\<close>

record Config =
  Format :: string
  formatTemplate :: "Template option"
  EnableGC :: bool
  VendoredLinters :: bool
  Install :: bool
  Update :: bool
  Checkstyle :: bool
  JSON :: bool
  Vendor :: bool
  Skip :: "string list"
  Exclude :: "string list"
  Include :: "string list"
  Concurrency :: int
  Enable :: "string list"
  EnableAll :: bool
  Disable :: "string list"
  Fast :: bool
  Linters :: "string \<rightharpoonup> LinterConfig"
  Sort :: "string list"
  Errors :: bool
  Debug :: bool

text \<open>\<open>config.Linters[name]\<close>: a Go map lookup gives the zero value for a missing key.\<close>

definition lintersLookup :: "Config \<Rightarrow> string \<Rightarrow> LinterConfig" where
  "lintersLookup config name =
     (case Linters config name of None \<Rightarrow> zeroLinterConfig | Some c \<Rightarrow> c)"

section \<open>The process state\<close>

text \<open>
  What the program does that can be seen from outside, in order: the text of each
  write to standard output and standard error, each call of \<open>regexp.MustCompile\<close>
  (with the pattern) and the call of \<open>runLinters\<close> (with the paths); and the
  environment variables it sets and the argument of its last call of
  \<open>runtime.GOMAXPROCS\<close> (none before the first call).
\<close>

datatype event =
    Stdout string
  | Stderr string
  | Compile string
  | LintersRun "string list"

record Proc =
  environ :: "string \<rightharpoonup> string"
  events :: "event list"
  maxprocs :: "int option"

text \<open>
  A run ends early by \<open>kingpin.FatalIfError\<close> or \<open>kingpin.Fatalf\<close> (the message is
  printed and the process exits with status 1) or by a panic. A function that can end
  the run returns \<open>Abort\<close> with the process state reached, or \<open>Ok\<close> with its value.
\<close>

datatype abort = Fatal string | Panic string

datatype 'a result = Ok 'a Proc | Abort abort Proc

definition newline :: string where
  "newline = [CHR 0x0A]"

definition emit :: "event \<Rightarrow> Proc \<Rightarrow> Proc" where
  "emit e p = p\<lparr>events := events p @ [e]\<rparr>"

text \<open>\<open>warning\<close> prints \<open>WARNING: \<close>, the message and a newline on standard error.\<close>

definition warning :: "string \<Rightarrow> Proc \<Rightarrow> Proc" where
  "warning msg p = emit (Stderr (''WARNING: '' @ msg @ newline)) p"

text \<open>\<open>debug\<close> prints on standard error when \<open>Configuration.Debug\<close> is set.\<close>

definition debug :: "Config \<Rightarrow> string \<Rightarrow> Proc \<Rightarrow> Proc" where
  "debug config msg p = (if Debug config then emit (Stderr (''DEBUG: '' @ msg @ newline)) p else p)"

section \<open>replaceWithMegacheck\<close>

text \<open>
  The loop over \<open>enabled\<close>: the state is the three flags and the \<open>revised\<close> slice.
\<close>

fun megacheckLoop ::
  "string list \<Rightarrow> bool \<times> bool \<times> bool \<times> string list \<Rightarrow> bool \<times> bool \<times> bool \<times> string list" where
  "megacheckLoop [] st = st"
| "megacheckLoop (linter # rest) (staticcheck, gosimple, unused, revised) =
     (if linter = ''staticcheck'' then megacheckLoop rest (True, gosimple, unused, revised)
      else if linter = ''gosimple'' then megacheckLoop rest (staticcheck, True, unused, revised)
      else if linter = ''unused'' then megacheckLoop rest (staticcheck, gosimple, True, revised)
      else if linter = ''megacheck'' then megacheckLoop rest (staticcheck, gosimple, unused, revised)
      else megacheckLoop rest (staticcheck, gosimple, unused, revised @ [linter]))"

definition replaceWithMegacheck :: "string list \<Rightarrow> bool \<Rightarrow> Proc \<Rightarrow> string list \<times> Proc" where
  "replaceWithMegacheck enabled enableAll p =
     (case megacheckLoop enabled (False, False, False, []) of
        (staticcheck, gosimple, unused, revised) \<Rightarrow>
          if staticcheck \<and> gosimple \<and> unused
          then (revised @ [''megacheck''],
                if \<not> enableAll
                then warning ''staticcheck, gosimple and unused are all set, using megacheck instead'' p
                else p)
          else (enabled, p))"

section \<open>lintersFromConfig\<close>

text \<open>
  \<open>getLinterByName\<close> is defined outside main.go and is a parameter here. It returns a
  pointer, which may be nil (\<open>None\<close>); reading \<open>linter.IsFast\<close> through a nil pointer
  panics. The map \<open>out\<close> holds pointers.
\<close>

type_synonym linterMap = "string \<rightharpoonup> Linter option"

fun enableLoop ::
  "(string \<Rightarrow> LinterConfig \<Rightarrow> Linter option) \<Rightarrow> Config \<Rightarrow> string list \<Rightarrow> linterMap
     \<Rightarrow> abort + linterMap" where
  "enableLoop getLinterByName config [] out = Inr out"
| "enableLoop getLinterByName config (name # rest) out =
     (let linter = getLinterByName name (lintersLookup config name) in
      if Fast config then
        (case linter of
           None \<Rightarrow> Inl (Panic ''nil pointer dereference'')
         | Some l \<Rightarrow>
             if \<not> IsFast l then enableLoop getLinterByName config rest out
             else enableLoop getLinterByName config rest (out(name \<mapsto> linter)))
      else enableLoop getLinterByName config rest (out(name \<mapsto> linter)))"

fun disableLoop :: "string list \<Rightarrow> linterMap \<Rightarrow> linterMap" where
  "disableLoop [] out = out"
| "disableLoop (linter # rest) out = disableLoop rest (out(linter := None))"

text \<open>
  The configuration is behind a pointer: \<open>config.Enable\<close> is overwritten, so the
  updated configuration is returned with the map.
\<close>

definition lintersFromConfig ::
  "(string \<Rightarrow> LinterConfig \<Rightarrow> Linter option) \<Rightarrow> Config \<Rightarrow> Proc
     \<Rightarrow> (linterMap \<times> Config) result" where
  "lintersFromConfig getLinterByName config p =
     (case replaceWithMegacheck (Enable config) (EnableAll config) p of
        (enabled, p') \<Rightarrow>
          let config' = config\<lparr>Enable := enabled\<rparr> in
          (case enableLoop getLinterByName config' (Enable config') Map.empty of
             Inl e \<Rightarrow> Abort e p'
           | Inr out \<Rightarrow> Ok (disableLoop (Disable config') out, config') p'))"

section \<open>Paths\<close>

text \<open>
  The functions of \<open>path/filepath\<close> that main.go calls, for a Unix system (the
  separator is \<open>/\<close>, there are no volume names). \<open>Clean\<close> keeps a stack of path
  elements: empty elements and \<open>.\<close> are dropped, \<open>..\<close> removes the element before it
  when there is one that is not itself \<open>..\<close>, is dropped at the root, and is kept
  otherwise.
\<close>

fun strings_Split :: "string \<Rightarrow> char \<Rightarrow> string list" where
  "strings_Split [] sep = [[]]"
| "strings_Split (c # cs) sep =
     (if c = sep then [] # strings_Split cs sep
      else (case strings_Split cs sep of
              [] \<Rightarrow> [[c]]
            | x # xs \<Rightarrow> (c # x) # xs))"

definition filepath_IsAbs :: "string \<Rightarrow> bool" where
  "filepath_IsAbs path = strings_HasPrefix path ''/''"

definition cleanStep :: "bool \<Rightarrow> string list \<Rightarrow> string \<Rightarrow> string list" where
  "cleanStep rooted out elem =
     (if elem = [] \<or> elem = ''.'' then out
      else if elem = ''..'' then
        (if out \<noteq> [] \<and> last out \<noteq> ''..'' then butlast out
         else if \<not> rooted then out @ [''..'']
         else out)
      else out @ [elem])"

definition filepath_Clean :: "string \<Rightarrow> string" where
  "filepath_Clean path =
     (if path = [] then ''.''
      else
        let rooted = strings_HasPrefix path ''/'';
            out = foldl (cleanStep rooted) [] (strings_Split path CHR ''/'');
            s = (if rooted then ''/'' else []) @ strings_Join out ''/''
        in if s = [] then ''.'' else s)"

text \<open>\<open>Base\<close>: the last element of the path, after removing trailing slashes.\<close>

definition filepath_Base :: "string \<Rightarrow> string" where
  "filepath_Base path =
     (if path = [] then ''.''
      else
        let stripped = rev (dropWhile (\<lambda>c. c = CHR ''/'') (rev path));
            element = rev (takeWhile (\<lambda>c. c \<noteq> CHR ''/'') (rev stripped))
        in if element = [] then ''/'' else element)"

text \<open>\<open>Dir\<close>: the path up to and including its last slash, cleaned.\<close>

definition filepath_Dir :: "string \<Rightarrow> string" where
  "filepath_Dir path = filepath_Clean (rev (dropWhile (\<lambda>c. c \<noteq> CHR ''/'') (rev path)))"

text \<open>\<open>Join\<close>: the elements from the first non-empty one on, joined by slashes and cleaned.\<close>

definition filepath_Join :: "string list \<Rightarrow> string" where
  "filepath_Join elem =
     (case dropWhile (\<lambda>e. e = []) elem of
        [] \<Rightarrow> []
      | es \<Rightarrow> filepath_Clean (strings_Join es ''/''))"

section \<open>The file system and filepath.Walk\<close>

text \<open>
  What \<open>os.Lstat\<close> and the directory listing give for a path: no entry (\<open>Lstat\<close>
  fails), something that is not a directory, a directory with its entries in the order
  \<open>readDirNames\<close> returns them (sorted by name), or a directory that cannot be read.
\<close>

datatype fsnode =
    NoEntry
  | File
  | Dir "(string \<times> fsnode) list"
  | DirUnreadable

fun IsDir :: "fsnode \<Rightarrow> bool" where
  "IsDir (Dir entries) = True"
| "IsDir DirUnreadable = True"
| "IsDir File = False"
| "IsDir NoEntry = False"

text \<open>
  The error a \<open>WalkFunc\<close> returns: nil is \<open>None\<close>. The function gets the path,
  whether the entry is a directory, and the error of \<open>Lstat\<close> or of the listing.
  \<open>walk\<close> is the library's recursion. For an entry that is not a directory the
  function is called once. A directory is read first and the function is called with
  the error of the reading, if any; when the reading failed or the function returned
  an error, that is the result of \<open>walk\<close>; otherwise the entries are walked in
  order. In the loop \<open>SkipDir\<close> from a directory skips it, from anything else it
  ends the loop (and so skips the rest of the directory); any other error ends the
  walk.
\<close>

datatype walkErr = SkipDir | SkipAll | OtherErr string

type_synonym 's WalkFunc = "string \<Rightarrow> bool \<Rightarrow> string option \<Rightarrow> 's \<Rightarrow> walkErr option \<times> 's"

fun walk :: "'s WalkFunc \<Rightarrow> string \<Rightarrow> fsnode \<Rightarrow> 's \<Rightarrow> walkErr option \<times> 's"
  and walkNames :: "'s WalkFunc \<Rightarrow> string \<Rightarrow> (string \<times> fsnode) list \<Rightarrow> 's \<Rightarrow> walkErr option \<times> 's"
where
  "walk walkFn path NoEntry st = walkFn path False (Some ''lstat: no such file or directory'') st"
| "walk walkFn path File st = walkFn path False None st"
| "walk walkFn path DirUnreadable st = walkFn path True (Some ''open: permission denied'') st"
| "walk walkFn path (Dir entries) st =
     (case walkFn path True None st of
        (Some e, st') \<Rightarrow> (Some e, st')
      | (None, st') \<Rightarrow> walkNames walkFn path entries st')"
| "walkNames walkFn path [] st = (None, st)"
| "walkNames walkFn path ((name, node) # rest) st =
     (let filename = filepath_Join [path, name] in
      if node = NoEntry then
        (case walkFn filename False (Some ''lstat: no such file or directory'') st of
           (None, st') \<Rightarrow> walkNames walkFn path rest st'
         | (Some e, st') \<Rightarrow>
             if e \<noteq> SkipDir then (Some e, st')
             else walkNames walkFn path rest st')
      else
        (case walk walkFn filename node st of
           (None, st') \<Rightarrow> walkNames walkFn path rest st'
         | (Some e, st') \<Rightarrow>
             if \<not> IsDir node \<or> e \<noteq> SkipDir then (Some e, st')
             else walkNames walkFn path rest st'))"

text \<open>
  \<open>filepath.Walk\<close>; \<open>lstat\<close> gives the tree at a root path. \<open>SkipDir\<close> and
  \<open>SkipAll\<close> at the top are no error.
\<close>

definition filepath_Walk :: "(string \<Rightarrow> fsnode) \<Rightarrow> string \<Rightarrow> 's WalkFunc \<Rightarrow> 's \<Rightarrow> walkErr option \<times> 's" where
  "filepath_Walk lstat root walkFn st =
     (case walk walkFn root (lstat root) st of
        (Some SkipDir, st') \<Rightarrow> (None, st')
      | (Some SkipAll, st') \<Rightarrow> (None, st')
      | r \<Rightarrow> r)"

section \<open>resolvePaths\<close>

text \<open>
  \<open>stringSet\<close> is declared outside main.go: a set of strings with \<open>add\<close>, \<open>size\<close>
  and \<open>asSlice\<close>. It is modelled as the list of its distinct members; \<open>asSlice\<close>
  returns them in some order, which \<open>resolvePaths\<close> sorts away.
\<close>

type_synonym stringSet = "string list"

definition newStringSet :: stringSet where
  "newStringSet = []"

definition add :: "string \<Rightarrow> stringSet \<Rightarrow> stringSet" where
  "add s items = (if s \<in> set items then items else items @ [s])"

definition asSlice :: "stringSet \<Rightarrow> string list" where
  "asSlice items = items"

text \<open>
  \<open>newPathFilter(skip)\<close> returns a closure; \<open>newPathFilter skip path\<close> is its value
  on \<open>path\<close>. The map \<open>filter\<close> holds \<open>true\<close> for exactly the names of \<open>skip\<close>.
  \<open>base[0:1]\<close> is in range because \<open>Base\<close> never returns the empty string.
\<close>

definition strings_ContainsAny :: "string \<Rightarrow> string \<Rightarrow> bool" where
  "strings_ContainsAny s chars = (\<exists>c \<in> set s. c \<in> set chars)"

definition newPathFilter :: "string list \<Rightarrow> string \<Rightarrow> bool" where
  "newPathFilter skip path =
     (let base = filepath_Base path in
      if base \<in> set skip \<or> path \<in> set skip then True
      else base \<noteq> ''.'' \<and> base \<noteq> ''..'' \<and> strings_ContainsAny (take 1 base) ''_.'')"

definition relativePackagePath :: "string \<Rightarrow> string" where
  "relativePackagePath dir =
     (if filepath_IsAbs dir \<or> strings_HasPrefix dir ''.'' then dir
      else ''./'' @ dir)"

text \<open>
  The function literal given to \<open>filepath.Walk\<close>. Its state is the set \<open>dirs\<close> and
  the process state (for the warning). \<open>quoted\<close> stands for the verb \<open>%q\<close> (the
  escaping of special characters is left out).
\<close>

definition quoted :: "string \<Rightarrow> string" where
  "quoted s = [CHR 0x22] @ s @ [CHR 0x22]"

definition walkFn :: "string list \<Rightarrow> (stringSet \<times> Proc) WalkFunc" where
  "walkFn skipList p isDir err st =
     (case st of (dirs, proc) \<Rightarrow>
        (case err of
           Some e \<Rightarrow> (Some (OtherErr e), (dirs, warning (''invalid path '' @ quoted p @ '': '' @ e) proc))
         | None \<Rightarrow>
             let skip = newPathFilter skipList p in
             if isDir \<and> skip then (Some SkipDir, st)
             else if \<not> isDir \<and> \<not> skip \<and> strings_HasSuffix p ''.go''
               then (None, (add (filepath_Clean (filepath_Dir p)) dirs, proc))
             else (None, st)))"

fun pathsLoop ::
  "(string \<Rightarrow> fsnode) \<Rightarrow> string list \<Rightarrow> string list \<Rightarrow> stringSet \<times> Proc \<Rightarrow> stringSet \<times> Proc" where
  "pathsLoop lstat skip [] st = st"
| "pathsLoop lstat skip (path # rest) st =
     (if strings_HasSuffix path ''/...''
      then
        (let root = filepath_Dir path in
         pathsLoop lstat skip rest (snd (filepath_Walk lstat root (walkFn skip) st)))
      else
        (case st of (dirs, proc) \<Rightarrow>
           pathsLoop lstat skip rest (add (filepath_Clean path) dirs, proc)))"

fun debugLoop :: "Config \<Rightarrow> string list \<Rightarrow> Proc \<Rightarrow> Proc" where
  "debugLoop config [] proc = proc"
| "debugLoop config (d # ds) proc = debugLoop config ds (debug config (''linting path '' @ d) proc)"

definition resolvePaths ::
  "(string \<Rightarrow> fsnode) \<Rightarrow> Config \<Rightarrow> string list \<Rightarrow> string list \<Rightarrow> Proc \<Rightarrow> string list \<times> Proc" where
  "resolvePaths lstat config paths skip proc =
     (if length paths = 0 then ([''.''], proc)
      else
        (case pathsLoop lstat skip paths (newStringSet, proc) of
           (dirs, proc') \<Rightarrow>
             let out = sort (map relativePackagePath (asSlice dirs)) in
             (out, debugLoop config out proc')))"

section \<open>The environment\<close>

text \<open>
  \<open>os.Getenv\<close> gives the empty string for an unset variable. \<open>os.Setenv\<close> fails on
  an empty key, on a key with \<open>=\<close> or a NUL byte and on a value with a NUL byte.
\<close>

definition os_Getenv :: "string \<Rightarrow> Proc \<Rightarrow> string" where
  "os_Getenv key proc = (case environ proc key of None \<Rightarrow> [] | Some v \<Rightarrow> v)"

definition os_Setenv :: "string \<Rightarrow> string \<Rightarrow> Proc \<Rightarrow> string option \<times> Proc" where
  "os_Setenv key v proc =
     (if key = [] \<or> CHR ''='' \<in> set key \<or> CHR 0x00 \<in> set key \<or> CHR 0x00 \<in> set v
      then (Some ''setenv: invalid argument'', proc)
      else (None, proc\<lparr>environ := (environ proc)(key \<mapsto> v)\<rparr>))"

definition setEnv :: "string \<Rightarrow> string \<Rightarrow> Proc \<Rightarrow> Proc" where
  "setEnv key v proc =
     (case os_Setenv key v proc of
        (Some err, proc') \<Rightarrow> warning (''setenv '' @ key @ '': '' @ err) proc'
      | (None, proc') \<Rightarrow> proc')"

definition debugPrintEnv :: "Config \<Rightarrow> Proc \<Rightarrow> Proc" where
  "debugPrintEnv config proc =
     (let proc1 = debug config (''PATH='' @ os_Getenv ''PATH'' proc) proc;
          proc2 = debug config (''GOPATH='' @ os_Getenv ''GOPATH'' proc1) proc1
      in debug config (''GOBIN='' @ os_Getenv ''GOBIN'' proc2) proc2)"

text \<open>
  \<open>getGoPath\<close>: \<open>userCurrent\<close> is the result of \<open>user.Current()\<close>, an error
  (\<open>Inl\<close>) or the home directory of the user.
\<close>

definition getGoPath :: "string + string \<Rightarrow> Proc \<Rightarrow> abort + string" where
  "getGoPath userCurrent proc =
     (let path = os_Getenv ''GOPATH'' proc in
      if path = [] then
        (case userCurrent of
           Inl err \<Rightarrow> Inl (Fatal err)
         | Inr homeDir \<Rightarrow> Inr (filepath_Join [homeDir, ''go'']))
      else Inr path)"

text \<open>The path list separator is \<open>:\<close>.\<close>

definition getGoPathList :: "string + string \<Rightarrow> Proc \<Rightarrow> abort + string list" where
  "getGoPathList userCurrent proc =
     (case getGoPath userCurrent proc of
        Inl a \<Rightarrow> Inl a
      | Inr path \<Rightarrow> Inr (strings_Split path CHR '':''))"

definition addPath :: "string list \<Rightarrow> string \<Rightarrow> string list" where
  "addPath paths path = (if path \<in> set paths then paths else paths @ [path])"

fun addGoBinsLoop :: "string list \<Rightarrow> string list \<Rightarrow> string list" where
  "addGoBinsLoop [] paths = paths"
| "addGoBinsLoop (p # gopaths) paths = addGoBinsLoop gopaths (addPath paths (filepath_Join [p, ''bin'']))"

definition addGoBinsToPath :: "string list \<Rightarrow> Proc \<Rightarrow> string list" where
  "addGoBinsToPath gopaths proc =
     (let paths = addGoBinsLoop gopaths (strings_Split (os_Getenv ''PATH'' proc) CHR '':'');
          gobin = os_Getenv ''GOBIN'' proc
      in if gobin \<noteq> [] then addPath paths gobin else paths)"

definition configureEnvironment :: "string + string \<Rightarrow> Config \<Rightarrow> Proc \<Rightarrow> unit result" where
  "configureEnvironment userCurrent config proc =
     (case getGoPathList userCurrent proc of
        Inl a \<Rightarrow> Abort a proc
      | Inr gopaths \<Rightarrow>
          let paths = addGoBinsToPath gopaths proc in
          Ok () (debugPrintEnv config (setEnv ''PATH'' (strings_Join paths '':'') proc)))"

definition vendoredSearchPaths :: "string list list" where
  "vendoredSearchPaths =
     [[''github.com'', ''alecthomas'', ''gometalinter'', ''_linters''],
      [''gopkg.in'', ''alecthomas'', ''gometalinter.v1'', ''_linters'']]"

text \<open>\<open>findVendoredLinters\<close>: \<open>statOK\<close> says for which paths \<open>os.Stat\<close> succeeds.\<close>

fun vendoredInner :: "(string \<Rightarrow> bool) \<Rightarrow> string list \<Rightarrow> string list \<Rightarrow> string option" where
  "vendoredInner statOK home [] = None"
| "vendoredInner statOK home (p # gopaths) =
     (let vendorRoot = filepath_Join ([p, ''src''] @ home) in
      if statOK vendorRoot then Some vendorRoot else vendoredInner statOK home gopaths)"

fun vendoredOuter :: "(string \<Rightarrow> bool) \<Rightarrow> string list list \<Rightarrow> string list \<Rightarrow> string" where
  "vendoredOuter statOK [] gopaths = []"
| "vendoredOuter statOK (home # homes) gopaths =
     (case vendoredInner statOK home gopaths of
        Some vendorRoot \<Rightarrow> vendorRoot
      | None \<Rightarrow> vendoredOuter statOK homes gopaths)"

definition findVendoredLinters :: "(string \<Rightarrow> bool) \<Rightarrow> string + string \<Rightarrow> Proc \<Rightarrow> abort + string" where
  "findVendoredLinters statOK userCurrent proc =
     (case getGoPathList userCurrent proc of
        Inl a \<Rightarrow> Inl a
      | Inr gopaths \<Rightarrow> Inr (vendoredOuter statOK vendoredSearchPaths gopaths))"

text \<open>
  \<open>configureEnvironmentForInstall\<close>. \<open>gopaths[0]\<close> panics on an empty slice
  (\<open>strings.Split\<close> with a non-empty separator returns at least one string, so the
  branch is not taken).
\<close>

definition configureEnvironmentForInstall ::
  "(string \<Rightarrow> bool) \<Rightarrow> string + string \<Rightarrow> Config \<Rightarrow> Proc \<Rightarrow> unit result" where
  "configureEnvironmentForInstall statOK userCurrent config proc =
     (case getGoPathList userCurrent proc of
        Inl a \<Rightarrow> Abort a proc
      | Inr gopaths \<Rightarrow>
          (case findVendoredLinters statOK userCurrent proc of
             Inl a \<Rightarrow> Abort a proc
           | Inr vendorRoot \<Rightarrow>
               if vendorRoot = [] then
                 (case getGoPath userCurrent proc of
                    Inl a \<Rightarrow> Abort a proc
                  | Inr gopath \<Rightarrow>
                      Abort (Fatal (''could not find vendored linters in GOPATH='' @ quoted gopath)) proc)
               else
                 let proc1 = debug config
                       (''found vendored linters at '' @ vendorRoot @ '', updating environment'') proc;
                     gobin = os_Getenv ''GOBIN'' proc1
                 in
                 if gobin = [] \<and> gopaths = [] then Abort (Panic ''index out of range'') proc1
                 else
                   let gobin' = (if gobin = [] then filepath_Join [hd gopaths, ''bin''] else gobin);
                       proc2 = setEnv ''GOBIN'' gobin' proc1;
                       proc3 = setEnv ''GOPATH'' vendorRoot proc2
                   in Ok () (debugPrintEnv config proc3)))"

section \<open>processConfig\<close>

definition updateIgnored :: string where
  "updateIgnored =
     ''Linters are now vendored by default, --update ignored. The original'' @ newline @
     ''behaviour can be re-enabled with --no-vendored-linters.'' @ newline @ newline @
     ''To request an update for a vendored linter file an issue at:'' @ newline @
     ''https://github.com/alecthomas/gometalinter/issues/new'' @ newline"

text \<open>
  \<open>regexp.MustCompile\<close> panics on a pattern that does not compile; \<open>validRegexp\<close>
  says which patterns compile. The call is recorded in the trace.
\<close>

definition MustCompile :: "(string \<Rightarrow> bool) \<Rightarrow> string \<Rightarrow> Proc \<Rightarrow> Regexp result" where
  "MustCompile validRegexp str proc =
     (let proc' = emit (Compile str) proc in
      if validRegexp str then Ok (Regexp str) proc'
      else Abort (Panic (''regexp: Compile('' @ quoted str @ '')'')) proc')"

text \<open>
  \<open>runtime.GOMAXPROCS(n)\<close>: the call is recorded with its argument. What the
  runtime makes of the argument (it keeps its setting for \<open>n < 1\<close> and takes the
  low 32 bits of a larger one) is outside the program and is not part of the state.
\<close>

definition GOMAXPROCS :: "int \<Rightarrow> Proc \<Rightarrow> Proc" where
  "GOMAXPROCS n proc = proc\<lparr>maxprocs := Some n\<rparr>"

text \<open>
  \<open>processConfig\<close> up to the vendor experiment: the template (\<open>validTemplate\<close> says
  which formats parse), the garbage collector, the ignored update, the forced sort key
  and the vendor directory. The configuration is behind a pointer and is returned.
\<close>

definition processSettings :: "(string \<Rightarrow> bool) \<Rightarrow> Config \<Rightarrow> Proc \<Rightarrow> Config result" where
  "processSettings validTemplate config proc =
     (if \<not> validTemplate (Format config)
      then Abort (Fatal (''invalid format '' @ quoted (Format config))) proc
      else
        let config1 = config\<lparr>formatTemplate := Some (Template (Format config))\<rparr>;
            proc1 = (if \<not> EnableGC config1 then snd (os_Setenv ''GOGC'' ''off'' proc) else proc);
            update = VendoredLinters config1 \<and> Install config1 \<and> Update config1;
            proc2 = (if update then warning updateIgnored proc1 else proc1);
            config2 = (if update then config1\<lparr>Update := False\<rparr> else config1);
            config3 = (if Checkstyle config2 \<and> \<not> JSON config2
                       then config2\<lparr>Sort := [''path'']\<rparr> else config2)
        in
        if os_Getenv ''GO15VENDOREXPERIMENT'' proc2 = ''1'' \<or> Vendor config3 then
          (case os_Setenv ''GO15VENDOREXPERIMENT'' ''1'' proc2 of
             (err, proc3) \<Rightarrow>
               let proc4 = (case err of
                              Some e \<Rightarrow> warning (''setenv GO15VENDOREXPERIMENT: '' @ e) proc3
                            | None \<Rightarrow> proc3)
               in Ok (config3\<lparr>Skip := Skip config3 @ [''vendor''], Vendor := True\<rparr>) proc4)
        else Ok config3 proc2)"

text \<open>
  The two filters: \<open>exclude\<close> is compiled first, then \<open>include\<close>; a list that is
  empty leaves the result nil (\<open>None\<close>).
\<close>

definition compileFilter :: "(string \<Rightarrow> bool) \<Rightarrow> string list \<Rightarrow> Proc \<Rightarrow> Regexp option result" where
  "compileFilter validRegexp patterns proc =
     (if length patterns > 0 then
        (case MustCompile validRegexp (strings_Join patterns ''|'') proc of
           Abort a proc' \<Rightarrow> Abort a proc'
         | Ok re proc' \<Rightarrow> Ok (Some re) proc')
      else Ok None proc)"

text \<open>\<open>processConfig\<close> returns \<open>include\<close>, \<open>exclude\<close> and the updated configuration.\<close>

definition processConfig ::
  "(string \<Rightarrow> bool) \<Rightarrow> (string \<Rightarrow> bool) \<Rightarrow> Config \<Rightarrow> Proc
     \<Rightarrow> (Regexp option \<times> Regexp option \<times> Config) result" where
  "processConfig validTemplate validRegexp config proc =
     (case processSettings validTemplate config proc of
        Abort a proc1 \<Rightarrow> Abort a proc1
      | Ok config1 proc1 \<Rightarrow>
          (case compileFilter validRegexp (Exclude config1) proc1 of
             Abort a proc2 \<Rightarrow> Abort a proc2
           | Ok exclude proc2 \<Rightarrow>
               (case compileFilter validRegexp (Include config1) proc2 of
                  Abort a proc3 \<Rightarrow> Abort a proc3
                | Ok include proc3 \<Rightarrow>
                    Ok (include, exclude, config1) (GOMAXPROCS (Concurrency config1) proc3))))"

section \<open>Issues and their output\<close>

text \<open>
  \<open>Issue\<close> is declared outside main.go; the fields are those of the specification's
  data model. main.go reads \<open>Severity\<close> and calls \<open>String\<close> and \<open>json.Marshal\<close>,
  which are the parameters \<open>issueString\<close> and \<open>jsonMarshal\<close> (\<open>Inl\<close> is an error).
  A channel of issues is the list of the issues received from it until it is closed.
\<close>

datatype Severity = Error | Warning

record Issue =
  Linter :: string
  Severity :: Severity
  Path :: string
  Line :: int
  Col :: int
  Message :: string

fun consoleLoop :: "Config \<Rightarrow> (Issue \<Rightarrow> string) \<Rightarrow> Issue list \<Rightarrow> int \<times> Proc \<Rightarrow> int \<times> Proc" where
  "consoleLoop config issueString [] st = st"
| "consoleLoop config issueString (issue # rest) (status, proc) =
     (if Errors config \<and> Severity issue \<noteq> Error
      then consoleLoop config issueString rest (status, proc)
      else consoleLoop config issueString rest
             (1, emit (Stdout (issueString issue @ newline)) proc))"

definition outputToConsole :: "Config \<Rightarrow> (Issue \<Rightarrow> string) \<Rightarrow> Issue list \<Rightarrow> Proc \<Rightarrow> int \<times> Proc" where
  "outputToConsole config issueString issues proc = consoleLoop config issueString issues (0, proc)"

fun jsonLoop ::
  "Config \<Rightarrow> (Issue \<Rightarrow> string + string) \<Rightarrow> Issue list \<Rightarrow> int \<Rightarrow> Proc \<Rightarrow> int result" where
  "jsonLoop config jsonMarshal [] status proc = Ok status proc"
| "jsonLoop config jsonMarshal (issue # rest) status proc =
     (if Errors config \<and> Severity issue \<noteq> Error
      then jsonLoop config jsonMarshal rest status proc
      else
        let proc1 = (if status \<noteq> 0 then emit (Stdout ('','' @ newline)) proc else proc) in
        (case jsonMarshal issue of
           Inl err \<Rightarrow> Abort (Fatal err) proc1
         | Inr d \<Rightarrow> jsonLoop config jsonMarshal rest 1 (emit (Stdout (''  '' @ d)) proc1)))"

definition outputToJSON ::
  "Config \<Rightarrow> (Issue \<Rightarrow> string + string) \<Rightarrow> Issue list \<Rightarrow> Proc \<Rightarrow> int result" where
  "outputToJSON config jsonMarshal issues proc =
     (case jsonLoop config jsonMarshal issues 0 (emit (Stdout (''['' @ newline)) proc) of
        Abort a proc' \<Rightarrow> Abort a proc'
      | Ok status proc' \<Rightarrow> Ok status (emit (Stdout (newline @ '']'' @ newline)) proc'))"

section \<open>Run\<close>

text \<open>
  What \<open>Run\<close> uses and main.go does not define: the libraries' verdicts on templates
  and patterns, the file system, the current user, the functions of the package that
  live in other files (\<open>getLinterByName\<close>, \<open>validateLinters\<close>, \<open>runLinters\<close>,
  \<open>outputToCheckstyle\<close>, \<open>installLinters\<close>, the methods of \<open>Issue\<close>) and the
  elapsed time as printed. \<open>runLinters\<close> gives what is received from its two
  channels until they are closed: the issues and the errors.
\<close>

record Sys =
  validTemplate :: "string \<Rightarrow> bool"
  validRegexp :: "string \<Rightarrow> bool"
  lstat :: "string \<Rightarrow> fsnode"
  statOK :: "string \<Rightarrow> bool"
  userCurrent :: "string + string"
  getLinterByName :: "string \<Rightarrow> LinterConfig \<Rightarrow> Linter option"
  validateLinters :: "linterMap \<Rightarrow> Config \<Rightarrow> string option"
  runLinters :: "Config \<Rightarrow> linterMap \<Rightarrow> string list \<Rightarrow> int \<Rightarrow> Regexp option \<Rightarrow> Regexp option
                   \<Rightarrow> Issue list \<times> string list"
  issueString :: "Issue \<Rightarrow> string"
  jsonMarshal :: "Issue \<Rightarrow> string + string"
  outputToCheckstyle :: "Config \<Rightarrow> Issue list \<Rightarrow> Proc \<Rightarrow> int result"
  installLinters :: "Config \<Rightarrow> Proc \<Rightarrow> unit result"
  elapsed :: string

datatype outcome = Aborted abort | Exited int | Returned

text \<open>The loop over the error channel: a warning for each error, and bit 2 of the status.\<close>

fun errorsLoop :: "string list \<Rightarrow> int \<times> Proc \<Rightarrow> int \<times> Proc" where
  "errorsLoop [] st = st"
| "errorsLoop (err # rest) (status, proc) = errorsLoop rest (or status 2, warning err proc)"

text \<open>The choice of the renderer in \<open>Run\<close>, by \<open>JSON\<close> and \<open>Checkstyle\<close>.\<close>

definition renderIssues :: "Sys \<Rightarrow> Config \<Rightarrow> Issue list \<Rightarrow> Proc \<Rightarrow> int result" where
  "renderIssues sys config issues proc =
     (if JSON config then outputToJSON config (jsonMarshal sys) issues proc
      else if Checkstyle config then outputToCheckstyle sys config issues proc
      else (case outputToConsole config (issueString sys) issues proc of
              (st, proc') \<Rightarrow> Ok st proc'))"

text \<open>\<open>Run\<close> from the call of \<open>runLinters\<close> to \<open>os.Exit\<close>.\<close>

definition lintAndReport ::
  "Sys \<Rightarrow> Config \<Rightarrow> linterMap \<Rightarrow> string list \<Rightarrow> Regexp option \<Rightarrow> Regexp option \<Rightarrow> Proc
     \<Rightarrow> outcome \<times> Proc" where
  "lintAndReport sys config linters resolvedPaths exclude include proc =
     (case runLinters sys config linters resolvedPaths (Concurrency config) exclude include of
        (issues, errch) \<Rightarrow>
          (case renderIssues sys config issues (emit (LintersRun resolvedPaths) proc) of
             Abort a proc2 \<Rightarrow> (Aborted a, proc2)
           | Ok st proc2 \<Rightarrow>
               (case errorsLoop errch (or 0 st, proc2) of
                  (status, proc3) \<Rightarrow>
                    (Exited status, debug config (''total elapsed time '' @ elapsed sys) proc3))))"

text \<open>
  \<open>Run\<close> from \<open>configureEnvironment\<close> to \<open>lintersFromConfig\<close>: the values it
  holds before \<open>validateLinters\<close> is called.
\<close>

record Prepared =
  includeFilter :: "Regexp option"
  excludeFilter :: "Regexp option"
  resolvedPaths :: "string list"
  linters :: linterMap
  configuration :: Config

definition prepare :: "Sys \<Rightarrow> string list \<Rightarrow> Config \<Rightarrow> Proc \<Rightarrow> Prepared result" where
  "prepare sys paths config proc =
     (case configureEnvironment (userCurrent sys) config proc of
        Abort a proc1 \<Rightarrow> Abort a proc1
      | Ok u proc1 \<Rightarrow>
          (case processConfig (validTemplate sys) (validRegexp sys) config proc1 of
             Abort a proc2 \<Rightarrow> Abort a proc2
           | Ok (inc, exc, config1) proc2 \<Rightarrow>
               (case resolvePaths (lstat sys) config1 paths (Skip config1) proc2 of
                  (rpaths, proc3) \<Rightarrow>
                    (case lintersFromConfig (getLinterByName sys) config1 proc3 of
                       Abort a proc4 \<Rightarrow> Abort a proc4
                     | Ok (lmap, config2) proc4 \<Rightarrow>
                         Ok \<lparr>includeFilter = inc, excludeFilter = exc, resolvedPaths = rpaths,
                             linters = lmap, configuration = config2\<rparr> proc4))))"

text \<open>
  \<open>Run\<close>. The configuration is the global \<open>Configuration\<close>; it is returned as the
  run leaves it (an abort before \<open>validateLinters\<close> gives back the one it started with).
\<close>

definition Run :: "Sys \<Rightarrow> string list \<Rightarrow> Config \<Rightarrow> Proc \<Rightarrow> outcome \<times> Config \<times> Proc" where
  "Run sys paths config proc =
     (if Install config then
        (case (if VendoredLinters config
               then configureEnvironmentForInstall (statOK sys) (userCurrent sys) config proc
               else Ok () proc) of
           Abort a proc1 \<Rightarrow> (Aborted a, config, proc1)
         | Ok u proc1 \<Rightarrow>
             (case installLinters sys config proc1 of
                Abort a proc2 \<Rightarrow> (Aborted a, config, proc2)
              | Ok u' proc2 \<Rightarrow> (Returned, config, proc2)))
      else
        (case prepare sys paths config proc of
           Abort a proc1 \<Rightarrow> (Aborted a, config, proc1)
         | Ok v proc1 \<Rightarrow>
             (case validateLinters sys (linters v) (configuration v) of
                Some err \<Rightarrow> (Aborted (Fatal err), configuration v, proc1)
              | None \<Rightarrow>
                  (case lintAndReport sys (configuration v) (linters v) (resolvedPaths v)
                          (excludeFilter v) (includeFilter v) proc1 of
                     (out, proc2) \<Rightarrow> (out, configuration v, proc2)))))"

section \<open>The command line: the sort keys and the configuration file\<close>

definition sortKeys :: "string list" where
  "sortKeys = [''none'', ''path'', ''line'', ''column'', ''severity'', ''message'', ''linter'']"

text \<open>
  The flag \<open>--sort\<close> is declared with kingpin's \<open>EnumsVar(&Configuration.Sort, sortKeys...)\<close>.
  kingpin is a library; its setter for such a flag appends a value that is one of the
  options to the target and returns an error for any other value. \<open>sortFlag\<close> sets the
  values given to the occurrences of \<open>--sort\<close> on a command line, in order; the first
  error ends the parse.
\<close>

definition enumsSet :: "string list \<Rightarrow> string \<Rightarrow> string list \<Rightarrow> string + string list" where
  "enumsSet options v target =
     (if v \<in> set options then Inr (target @ [v])
      else Inl (''enum value must be one of '' @ strings_Join options '','' @ '', got '' @ v))"

fun sortFlag :: "string list \<Rightarrow> Config \<Rightarrow> string + Config" where
  "sortFlag [] config = Inr config"
| "sortFlag (v # vs) config =
     (case enumsSet sortKeys v (Sort config) of
        Inl err \<Rightarrow> Inl err
      | Inr keys \<Rightarrow> sortFlag vs (config\<lparr>Sort := keys\<rparr>))"

text \<open>
  \<open>loadConfig\<close>, the action of the flag \<open>--config\<close>. What \<open>os.Open\<close> and the JSON
  decoder make of a file name: the file cannot be opened, its text cannot be decoded,
  or decoding it into \<open>Configuration\<close> changes the configuration (a field named in the
  document is overwritten).
\<close>

datatype configFile = OpenError string | DecodeError string | Decoded "Config \<Rightarrow> Config"

text \<open>The inner loop removes the first entry of \<open>Enable\<close> equal to \<open>disable\<close>.\<close>

fun removeFirst :: "string \<Rightarrow> string list \<Rightarrow> string list" where
  "removeFirst disable [] = []"
| "removeFirst disable (enable # rest) =
     (if enable = disable then rest else enable # removeFirst disable rest)"

fun removeDisabled :: "string list \<Rightarrow> string list \<Rightarrow> string list" where
  "removeDisabled [] enabled = enabled"
| "removeDisabled (disable # rest) enabled = removeDisabled rest (removeFirst disable enabled)"

definition loadConfig :: "(string \<Rightarrow> configFile) \<Rightarrow> string \<Rightarrow> Config \<Rightarrow> string + Config" where
  "loadConfig files name config =
     (case files name of
        OpenError err \<Rightarrow> Inl err
      | DecodeError err \<Rightarrow> Inl err
      | Decoded decode \<Rightarrow>
          let config' = decode config in
          Inr (config'\<lparr>Enable := removeDisabled (Disable config') (Enable config')\<rparr>))"

section \<open>Notions used in the statements\<close>

text \<open>The four names \<open>replaceWithMegacheck\<close> looks for.\<close>

definition megacheckNames :: "string set" where
  "megacheckNames = {''staticcheck'', ''gosimple'', ''unused'', ''megacheck''}"

text \<open>The patterns given to \<open>regexp.MustCompile\<close>, in the order of the calls.\<close>

fun compiled :: "event list \<Rightarrow> string list" where
  "compiled [] = []"
| "compiled (Compile s # es) = s # compiled es"
| "compiled (e # es) = compiled es"

text \<open>The calls of \<open>runLinters\<close>: no job runs before the first.\<close>

fun jobs :: "event list \<Rightarrow> string list list" where
  "jobs [] = []"
| "jobs (LintersRun ps # es) = ps # jobs es"
| "jobs (e # es) = jobs es"

text \<open>
  The issues a renderer of main.go prints: with \<open>Errors\<close> set, only those of
  severity \<open>Error\<close>. The warnings printed for a list of errors.
\<close>

definition shown :: "Config \<Rightarrow> Issue list \<Rightarrow> Issue list" where
  "shown config issues = filter (\<lambda>issue. \<not> (Errors config \<and> Severity issue \<noteq> Error)) issues"

definition warnings :: "string list \<Rightarrow> event list" where
  "warnings errs = map (\<lambda>err. Stderr (''WARNING: '' @ err @ newline)) errs"

definition append_events :: "event list \<Rightarrow> Proc \<Rightarrow> Proc" where
  "append_events es p = p\<lparr>events := events p @ es\<rparr>"

text \<open>
  What the JSON renderer writes for the marshalled issues, a comma before each but the
  first; the marshalled text of issues that all marshal; and the texts written to
  standard error.
\<close>

fun jsonItems :: "bool \<Rightarrow> string list \<Rightarrow> event list" where
  "jsonItems comma [] = []"
| "jsonItems comma (d # ds) =
     (if comma then [Stdout ('','' @ newline)] else []) @ Stdout (''  '' @ d) # jsonItems True ds"


fun stderrOf :: "event list \<Rightarrow> string list" where
  "stderrOf [] = []"
| "stderrOf (Stderr s # es) = s # stderrOf es"
| "stderrOf (e # es) = stderrOf es"

text \<open>An element of a cleaned path: not empty, not \<open>.\<close>, without a slash.\<close>

definition cleanElement :: "string \<Rightarrow> bool" where
  "cleanElement e = (e \<noteq> [] \<and> e \<noteq> ''.'' \<and> CHR ''/'' \<notin> set e)"

section \<open>Example inputs\<close>

text \<open>
  A configuration, a process state and collaborators to evaluate the functions on: two
  enabled linters of which \<open>vet\<close> is fast, a run that yields one issue and one
  error, and libraries that reject the template \<open>{{\<close> and the pattern \<open>(\<close>.
\<close>

definition exampleConfig :: Config where
  "exampleConfig =
     \<lparr>Format = ''{{.Path}}:{{.Line}}: {{.Message}}'', formatTemplate = None, EnableGC = False,
      VendoredLinters = True, Install = False, Update = False, Checkstyle = False, JSON = False,
      Vendor = False, Skip = [], Exclude = [], Include = [], Concurrency = 4,
      Enable = [''vet'', ''golint''], EnableAll = False, Disable = [], Fast = False,
      Linters = Map.empty, Sort = [''none''], Errors = False, Debug = False\<rparr>"

definition exampleProc :: Proc where
  "exampleProc =
     \<lparr>environ = [''GOPATH'' \<mapsto> ''/go'', ''PATH'' \<mapsto> ''/usr/bin''], events = [], maxprocs = None\<rparr>"

definition exampleLinter :: "string \<Rightarrow> LinterConfig \<Rightarrow> Linter option" where
  "exampleLinter name conf =
     Some \<lparr>Command = name, Pattern = Pattern conf, InstallFrom = [], IsFast = (name = ''vet''), Name = name\<rparr>"

definition exampleIssue :: Issue where
  "exampleIssue =
     \<lparr>Linter = ''vet'', Severity = Warning, Path = ''file.go'', Line = 10, Col = 5,
      Message = ''unused variable x''\<rparr>"

definition acceptLinters :: "linterMap \<Rightarrow> Config \<Rightarrow> string option" where
  "acceptLinters lmap config = None"

definition exampleRunLinters ::
  "Config \<Rightarrow> linterMap \<Rightarrow> string list \<Rightarrow> int \<Rightarrow> Regexp option \<Rightarrow> Regexp option \<Rightarrow> Issue list \<times> string list" where
  "exampleRunLinters config lmap paths n exc inc = ([exampleIssue], [''linter golint timed out''])"

definition exampleSys :: Sys where
  "exampleSys =
     \<lparr>validTemplate = (\<lambda>s. s \<noteq> ''{{''), validRegexp = (\<lambda>s. s \<noteq> ''(''),
      lstat = (\<lambda>root. NoEntry), statOK = (\<lambda>path. False), userCurrent = Inr ''/home/gopher'',
      getLinterByName = exampleLinter, validateLinters = acceptLinters,
      runLinters = exampleRunLinters, issueString = Message, jsonMarshal = (\<lambda>issue. Inr (Message issue)),
      outputToCheckstyle = (\<lambda>config issues proc. Ok 0 proc),
      installLinters = (\<lambda>config proc. Ok () proc), elapsed = ''1s''\<rparr>"


text \<open>A configuration file with the document \<open>{"Sort": ["bogus"]}\<close>.\<close>

definition bogusSortFile :: "string \<Rightarrow> configFile" where
  "bogusSortFile name =
     (if name = ''config.json'' then Decoded (\<lambda>config. config\<lparr>Sort := [''bogus'']\<rparr>)
      else OpenError ''open: no such file or directory'')"

text \<open>
  The directory tree of the test \<open>TestResolvePathsWithExpands\<close>, at the working
  directory.
\<close>

definition testTree :: "string \<Rightarrow> fsnode" where
  "testTree root =
     (if root = ''.'' then
        Dir [(''.exclude'', Dir [(''file.go'', File)]),
             (''_exclude'', Dir [(''file.go'', File)]),
             (''duplicate'', Dir [(''file.go'', File)]),
             (''exclude'', Dir [(''file.go'', File)]),
             (''file.go'', File),
             (''include'', Dir [(''.exclude'', Dir [(''file.go'', File)]),
                               (''_exclude'', Dir [(''file.go'', File)]),
                               (''file.go'', File),
                               (''foo'', Dir [(''file.go'', File)])]),
             (''other'', Dir [(''exclude'', Dir [(''file.go'', File)])])]
      else NoEntry)"

section \<open>Properties: strings and paths\<close>

text \<open>
  \<open>strings.Split\<close> returns at least one string, and none of them holds the
  separator; \<open>Base\<close> never returns the empty string.
\<close>

lemma strings_Split_no_sep: "e \<in> set (strings_Split s c) \<Longrightarrow> c \<notin> set e"
proof (induction s arbitrary: e)
  case Nil
  then show ?case by simp
next
  case (Cons x xs)
  then show ?case
    by (cases "strings_Split xs c") (auto split: if_splits)
qed

lemma strings_Split_nonempty: "strings_Split s c \<noteq> []"
  by (induction s) (auto split: list.splits)

lemma filepath_Base_nonempty: "filepath_Base path \<noteq> []"
  by (simp add: filepath_Base_def Let_def)

text \<open>
  A cleaned path never begins with \<open>./\<close>: its elements are kept on the stack of
  \<open>Clean\<close>, and none of them is \<open>.\<close>.
\<close>

lemma cleanStep_elements:
  assumes "\<forall>e \<in> set out. cleanElement e" and "CHR ''/'' \<notin> set elem"
  shows "\<forall>e \<in> set (cleanStep rooted out elem). cleanElement e"
  using assms
  by (auto simp: cleanStep_def cleanElement_def dest: in_set_butlastD)

lemma foldl_cleanStep_elements:
  assumes "\<forall>e \<in> set out. cleanElement e" and "\<forall>x \<in> set xs. CHR ''/'' \<notin> set x"
  shows "\<forall>e \<in> set (foldl (cleanStep rooted) out xs). cleanElement e"
  using assms
proof (induction xs arbitrary: out)
  case Nil
  then show ?case by simp
next
  case (Cons x xs)
  from Cons.prems have "\<forall>e \<in> set (cleanStep rooted out x). cleanElement e"
    by (intro cleanStep_elements) auto
  with Cons show ?case by simp
qed

lemma strings_Join_Cons: "strings_Join (e # es) sep = e @ (if es = [] then [] else sep @ strings_Join es sep)"
  by (cases es) auto

lemma strings_Join_elements_no_dot_slash:
  assumes "\<forall>e \<in> set out. cleanElement e"
  shows "\<not> strings_HasPrefix (strings_Join out ''/'') ''./''"
proof (cases out)
  case Nil
  then show ?thesis by (simp add: strings_HasPrefix_def)
next
  case (Cons e es)
  with assms have e: "cleanElement e" by simp
  show ?thesis
  proof (cases e)
    case Nil
    with e show ?thesis by (simp add: cleanElement_def)
  next
    case c: (Cons a as)
    show ?thesis
    proof (cases as)
      case Nil
      with c e Cons show ?thesis
        by (auto simp: cleanElement_def strings_HasPrefix_def strings_Join_Cons)
    next
      case (Cons b bs)
      with c e \<open>out = e # es\<close> show ?thesis
        by (auto simp: cleanElement_def strings_HasPrefix_def strings_Join_Cons)
    qed
  qed
qed

lemma filepath_Clean_no_dot_slash: "\<not> strings_HasPrefix (filepath_Clean path) ''./''"
proof (cases "path = []")
  case True
  then show ?thesis by (simp add: filepath_Clean_def strings_HasPrefix_def)
next
  case False
  let ?rooted = "strings_HasPrefix path ''/''"
  let ?out = "foldl (cleanStep ?rooted) [] (strings_Split path CHR ''/'')"
  have el: "\<forall>e \<in> set ?out. cleanElement e"
    by (rule foldl_cleanStep_elements) (auto dest: strings_Split_no_sep)
  show ?thesis
  proof (cases ?rooted)
    case True
    with False show ?thesis
      by (simp add: filepath_Clean_def Let_def strings_HasPrefix_def)
  next
    case r: False
    from strings_Join_elements_no_dot_slash[OF el] False r show ?thesis
      by (auto simp: filepath_Clean_def Let_def strings_HasPrefix_def)
  qed
qed

lemma filepath_Clean_not_prefixed: "filepath_Clean z \<noteq> CHR ''.'' # CHR ''/'' # d"
proof
  assume "filepath_Clean z = CHR ''.'' # CHR ''/'' # d"
  then have "strings_HasPrefix (filepath_Clean z) ''./''"
    by (simp add: strings_HasPrefix_def)
  with filepath_Clean_no_dot_slash show False by blast
qed

text \<open>
  So \<open>relativePackagePath\<close> maps different cleaned paths to different results.
\<close>

lemma relativePackagePath_inj:
  assumes "relativePackagePath (filepath_Clean x) = relativePackagePath (filepath_Clean y)"
  shows "filepath_Clean x = filepath_Clean y"
proof -
  note n = filepath_Clean_not_prefixed filepath_Clean_not_prefixed[symmetric]
  from assms show ?thesis
    by (simp add: relativePackagePath_def n split: if_splits)
qed

lemma relativePackagePath_form:
  "filepath_IsAbs (relativePackagePath d) \<or> strings_HasPrefix (relativePackagePath d) ''.'' \<or>
   strings_HasPrefix (relativePackagePath d) ''./''"
  by (auto simp: relativePackagePath_def strings_HasPrefix_def)

section \<open>Properties: replaceWithMegacheck\<close>

lemma megacheckLoop_eq:
  "megacheckLoop xs (a, b, c, r) =
     (a \<or> ''staticcheck'' \<in> set xs, b \<or> ''gosimple'' \<in> set xs, c \<or> ''unused'' \<in> set xs,
      r @ filter (\<lambda>x. x \<notin> megacheckNames) xs)"
  by (induction xs arbitrary: a b c r) (auto simp: megacheckNames_def)

text \<open>
  C6: if the enabled list contains staticcheck, gosimple and unused,
  replaceWithMegacheck returns the list without these three and without megacheck, in
  the order it had, followed by one megacheck; otherwise it returns the enabled list
  unchanged.
\<close>

theorem replaceWithMegacheck_result:
  "fst (replaceWithMegacheck enabled enableAll p) =
     (if ''staticcheck'' \<in> set enabled \<and> ''gosimple'' \<in> set enabled \<and> ''unused'' \<in> set enabled
      then filter (\<lambda>x. x \<notin> megacheckNames) enabled @ [''megacheck'']
      else enabled)"
  by (simp add: replaceWithMegacheck_def megacheckLoop_eq)

text \<open>
  The substitution on a list with all three names and an earlier megacheck, and on a
  list with one of the three only.
\<close>

theorem replaceWithMegacheck_result_witness:
  "fst (replaceWithMegacheck
          [''vet'', ''staticcheck'', ''megacheck'', ''gosimple'', ''golint'', ''unused''] False exampleProc)
     = [''vet'', ''golint'', ''megacheck''] \<and>
   fst (replaceWithMegacheck [''vet'', ''staticcheck'', ''megacheck''] False exampleProc)
     = [''vet'', ''staticcheck'', ''megacheck'']"
  using replaceWithMegacheck_result
          [of "[''vet'', ''staticcheck'', ''megacheck'', ''gosimple'', ''golint'', ''unused'']" False exampleProc]
        replaceWithMegacheck_result [of "[''vet'', ''staticcheck'', ''megacheck'']" False exampleProc]
  by (simp add: megacheckNames_def)

text \<open>
  The warning is printed exactly when the substitution is made and not all linters
  were enabled at once.
\<close>

lemma replaceWithMegacheck_warning:
  "snd (replaceWithMegacheck enabled enableAll p) =
     (if ''staticcheck'' \<in> set enabled \<and> ''gosimple'' \<in> set enabled \<and> ''unused'' \<in> set enabled \<and>
         \<not> enableAll
      then warning ''staticcheck, gosimple and unused are all set, using megacheck instead'' p
      else p)"
  by (simp add: replaceWithMegacheck_def megacheckLoop_eq)

section \<open>Properties: lintersFromConfig\<close>

lemma disableLoop_apply:
  "disableLoop ds out name = (if name \<in> set ds then None else out name)"
  by (induction ds arbitrary: out) auto

lemma enableLoop_fast:
  assumes "Fast config" and "enableLoop g config names out = Inr out'" and "out' name = Some ptr"
  shows "out name = Some ptr \<or>
         (name \<in> set names \<and> ptr = g name (lintersLookup config name) \<and> (\<exists>l. ptr = Some l \<and> IsFast l))"
  using assms
proof (induction names arbitrary: out)
  case Nil
  then show ?case by simp
next
  case (Cons n names)
  show ?case
  proof (cases "g n (lintersLookup config n)")
    case None
    with Cons.prems show ?thesis by simp
  next
    case (Some l)
    show ?thesis
    proof (cases "IsFast l")
      case True
      with Some Cons.prems have "enableLoop g config names (out(n \<mapsto> Some l)) = Inr out'"
        by simp
      from Cons.IH[OF Cons.prems(1) this Cons.prems(3)] Some True show ?thesis
        by (auto split: if_splits)
    next
      case False
      with Some Cons.prems have "enableLoop g config names out = Inr out'"
        by simp
      from Cons.IH[OF Cons.prems(1) this Cons.prems(3)] show ?thesis
        by auto
    qed
  qed
qed

lemma lintersLookup_Enable [simp]: "lintersLookup (config\<lparr>Enable := e\<rparr>) name = lintersLookup config name"
  by (simp add: lintersLookup_def)

text \<open>
  lintersFromConfig evaluates the substitution once: the list it leaves in
  config.Enable is the result of replaceWithMegacheck, and nothing else of the
  configuration changes.
\<close>

lemma lintersFromConfig_Enable:
  assumes "lintersFromConfig getLinter config proc = Ok (out, config') proc'"
  shows "config' = config\<lparr>Enable := fst (replaceWithMegacheck (Enable config) (EnableAll config) proc)\<rparr>"
  using assms
  by (auto simp: lintersFromConfig_def Let_def split: prod.splits sum.splits)

text \<open>
  lintersFromConfig returns when the fast-only option is not set, and when
  getLinterByName never returns nil.
\<close>

lemma enableLoop_total:
  "\<not> Fast config \<or> (\<forall>name conf. getLinter name conf \<noteq> None) \<Longrightarrow>
     \<exists>out'. enableLoop getLinter config names out = Inr out'"
proof (induction names arbitrary: out)
  case Nil
  then show ?case by simp
next
  case (Cons n names)
  show ?case
  proof (cases "Fast config")
    case False
    with Cons show ?thesis by (simp add: Let_def)
  next
    case True
    with Cons.prems obtain l where "getLinter n (lintersLookup config n) = Some l"
      by (metis not_None_eq)
    with Cons show ?thesis by (simp add: Let_def)
  qed
qed

lemma lintersFromConfig_total:
  assumes "\<not> Fast config \<or> (\<forall>name conf. getLinter name conf \<noteq> None)"
  shows "\<exists>out config' proc'. lintersFromConfig getLinter config proc = Ok (out, config') proc'"
proof -
  obtain enabled p1 where r: "replaceWithMegacheck (Enable config) (EnableAll config) proc = (enabled, p1)"
    by (cases "replaceWithMegacheck (Enable config) (EnableAll config) proc")
  from assms have "\<not> Fast (config\<lparr>Enable := enabled\<rparr>) \<or> (\<forall>name conf. getLinter name conf \<noteq> None)"
    by simp
  from enableLoop_total[OF this, of enabled Map.empty] obtain m where
    "enableLoop getLinter (config\<lparr>Enable := enabled\<rparr>) enabled Map.empty = Inr m"
    by blast
  with r show ?thesis
    by (simp add: lintersFromConfig_def Let_def)
qed

text \<open>
  C7: when the fast-only option is set, every entry of the map that lintersFromConfig
  returns is a linter marked fast, the one getLinterByName gives for its name; a linter
  that is not marked fast is not in the map.
\<close>

theorem lintersFromConfig_fast_only:
  assumes "Fast config"
    and "lintersFromConfig getLinter config proc = Ok (out, config') proc'"
    and "out name = Some ptr"
  shows "\<exists>l. ptr = Some l \<and> IsFast l \<and> getLinter name (lintersLookup config name) = Some l"
proof -
  obtain enabled p1 where r: "replaceWithMegacheck (Enable config) (EnableAll config) proc = (enabled, p1)"
    by (cases "replaceWithMegacheck (Enable config) (EnableAll config) proc")
  from assms(2) r obtain m where
    m: "enableLoop getLinter (config\<lparr>Enable := enabled\<rparr>) enabled Map.empty = Inr m"
    and out: "out = disableLoop (Disable config) m"
    by (auto simp: lintersFromConfig_def Let_def split: sum.splits)
  from assms(3) out have "m name = Some ptr"
    by (simp add: disableLoop_apply split: if_splits)
  from enableLoop_fast[OF _ m this] assms(1) show ?thesis
    by auto
qed

text \<open>
  With the fast-only option, of vet (fast) and golint (not fast) only vet is in the map.
\<close>

theorem lintersFromConfig_fast_only_witness:
  "Fast (exampleConfig\<lparr>Fast := True\<rparr>) \<and>
   (\<exists>out config' proc' l.
      lintersFromConfig exampleLinter (exampleConfig\<lparr>Fast := True\<rparr>) exampleProc = Ok (out, config') proc' \<and>
      out ''vet'' = Some (Some l) \<and> IsFast l \<and> out ''golint'' = None)"
proof -
  let ?c = "exampleConfig\<lparr>Fast := True\<rparr>"
  let ?r = "lintersFromConfig exampleLinter ?c exampleProc"
  have "case ?r of Ok (out, c) p \<Rightarrow> out ''vet'' = Some (exampleLinter ''vet'' zeroLinterConfig) \<and> out ''golint'' = None
        | Abort a p \<Rightarrow> False" by code_simp
  then obtain out config' proc' where r: "?r = Ok (out, config') proc'"
    and v: "out ''vet'' = Some (exampleLinter ''vet'' zeroLinterConfig)" and g: "out ''golint'' = None"
    by (auto split: result.splits)
  have f: "Fast ?c" by code_simp
  from lintersFromConfig_fast_only[OF f r v] obtain l where "exampleLinter ''vet'' zeroLinterConfig = Some l" "IsFast l"
    by auto
  with f r v g show ?thesis by auto
qed

text \<open>
  C10: the map that lintersFromConfig returns has no entry for a name of
  config.Disable, whether or not the name is in config.Enable.
\<close>

theorem lintersFromConfig_disabled:
  assumes "lintersFromConfig getLinter config proc = Ok (out, config') proc'"
    and "name \<in> set (Disable config)"
  shows "out name = None"
  using assms
  by (auto simp: lintersFromConfig_def Let_def disableLoop_apply split: sum.splits prod.splits)

text \<open>
  golint is enabled and disabled: it is not in the map, vet is.
\<close>

theorem lintersFromConfig_disabled_witness:
  "''golint'' \<in> set (Enable (exampleConfig\<lparr>Disable := [''golint'']\<rparr>)) \<and>
   ''golint'' \<in> set (Disable (exampleConfig\<lparr>Disable := [''golint'']\<rparr>)) \<and>
   (\<exists>out config' proc'.
      lintersFromConfig exampleLinter (exampleConfig\<lparr>Disable := [''golint'']\<rparr>) exampleProc = Ok (out, config') proc' \<and>
      out ''golint'' = None \<and> out ''vet'' \<noteq> None)"
proof -
  let ?c = "exampleConfig\<lparr>Disable := [''golint'']\<rparr>"
  let ?r = "lintersFromConfig exampleLinter ?c exampleProc"
  have "case ?r of Ok (out, c) p \<Rightarrow> out ''vet'' \<noteq> None | Abort a p \<Rightarrow> False" by code_simp
  then obtain out config' proc' where r: "?r = Ok (out, config') proc'" and v: "out ''vet'' \<noteq> None"
    by (auto split: result.splits)
  have d: "''golint'' \<in> set (Enable ?c)" "''golint'' \<in> set (Disable ?c)" by code_simp+
  from lintersFromConfig_disabled[OF r d(2)] d r v show ?thesis by auto
qed

section \<open>Properties: processConfig\<close>

lemma compiled_append [simp]: "compiled (xs @ ys) = compiled xs @ compiled ys"
  by (induction xs rule: compiled.induct) auto

lemma events_emit [simp]: "events (emit e p) = events p @ [e]"
  by (simp add: emit_def)

lemma events_warning [simp]: "events (warning m p) = events p @ [Stderr (''WARNING: '' @ m @ newline)]"
  by (simp add: warning_def)

lemma events_os_Setenv [simp]: "events (snd (os_Setenv k v p)) = events p"
  by (simp add: os_Setenv_def)

lemma os_Setenv_events: "os_Setenv k v p = (e, p') \<Longrightarrow> events p' = events p"
  by (auto simp: os_Setenv_def split: if_splits)

lemma events_GOMAXPROCS [simp]: "events (GOMAXPROCS n p) = events p"
  by (simp add: GOMAXPROCS_def)

lemma processSettings_Ok:
  assumes "processSettings tmplOK config proc = Ok config' proc'"
  shows "Sort config' = (if Checkstyle config \<and> \<not> JSON config then [''path''] else Sort config)"
    and "Exclude config' = Exclude config"
    and "Include config' = Include config"
    and "compiled (events proc') = compiled (events proc)"
  using assms
  by (auto simp: processSettings_def Let_def dest!: os_Setenv_events split: if_splits prod.splits option.splits)

lemma processSettings_total:
  "tmplOK (Format config) \<Longrightarrow> \<exists>c p. processSettings tmplOK config proc = Ok c p"
  by (auto simp: processSettings_def Let_def split: prod.splits)

lemma processSettings_abort:
  "processSettings tmplOK config proc = Abort a p \<Longrightarrow> \<not> tmplOK (Format config) \<and> p = proc"
  by (auto simp: processSettings_def Let_def split: prod.splits if_splits)

lemma compileFilter_Ok:
  assumes "compileFilter reOK patterns proc = Ok r proc'"
  shows "r = (if patterns = [] then None else Some (Regexp (strings_Join patterns ''|'')))"
    and "events proc' = events proc @ (if patterns = [] then [] else [Compile (strings_Join patterns ''|'')])"
  using assms
  by (auto simp: compileFilter_def MustCompile_def Let_def split: if_splits result.splits)

lemma compileFilter_valid:
  "compileFilter reOK pats proc = Ok r p \<Longrightarrow> pats = [] \<or> reOK (strings_Join pats ''|'')"
  by (auto simp: compileFilter_def MustCompile_def Let_def split: if_splits result.splits)

lemma processConfig_Ok_cases:
  assumes "processConfig tmplOK reOK config proc = Ok (inc, exc, config') proc'"
  obtains proc1 proc2 proc3 where
    "processSettings tmplOK config proc = Ok config' proc1"
    "compileFilter reOK (Exclude config') proc1 = Ok exc proc2"
    "compileFilter reOK (Include config') proc2 = Ok inc proc3"
    "proc' = GOMAXPROCS (Concurrency config') proc3"
  using assms
  by (auto simp: processConfig_def split: result.splits)

text \<open>
  processConfig returns exactly when the format parses and the patterns of each
  non-empty list, joined, compile.
\<close>

lemma compileFilter_total:
  "patterns = [] \<or> reOK (strings_Join patterns ''|'') \<Longrightarrow> \<exists>r p. compileFilter reOK patterns proc = Ok r p"
  by (auto simp: compileFilter_def MustCompile_def Let_def)

lemma processConfig_total:
  assumes "tmplOK (Format config)"
    and "Exclude config = [] \<or> reOK (strings_Join (Exclude config) ''|'')"
    and "Include config = [] \<or> reOK (strings_Join (Include config) ''|'')"
  shows "\<exists>v p. processConfig tmplOK reOK config proc = Ok v p"
proof -
  from processSettings_total[of tmplOK config proc, OF assms(1)] obtain c p1 where
    s: "processSettings tmplOK config proc = Ok c p1" by blast
  note st = processSettings_Ok[OF s]
  from assms(2) st(2) have "Exclude c = [] \<or> reOK (strings_Join (Exclude c) ''|'')" by simp
  from compileFilter_total[of "Exclude c" reOK p1, OF this] obtain exc p2 where
    e: "compileFilter reOK (Exclude c) p1 = Ok exc p2" by blast
  from assms(3) st(3) have "Include c = [] \<or> reOK (strings_Join (Include c) ''|'')" by simp
  from compileFilter_total[of "Include c" reOK p2, OF this] obtain inc p3 where
    i: "compileFilter reOK (Include c) p2 = Ok inc p3" by blast
  from s e i show ?thesis
    by (simp add: processConfig_def)
qed

lemma processConfig_valid:
  assumes "processConfig tmplOK reOK config proc = Ok v p"
  shows "tmplOK (Format config)"
    and "Exclude config = [] \<or> reOK (strings_Join (Exclude config) ''|'')"
    and "Include config = [] \<or> reOK (strings_Join (Include config) ''|'')"
proof -
  obtain inc exc c where v: "v = (inc, exc, c)" by (cases v)
  from assms[unfolded v] obtain proc1 proc2 proc3 where
    s: "processSettings tmplOK config proc = Ok c proc1"
    and e: "compileFilter reOK (Exclude c) proc1 = Ok exc proc2"
    and i: "compileFilter reOK (Include c) proc2 = Ok inc proc3"
    by (rule processConfig_Ok_cases)
  from s show "tmplOK (Format config)"
    by (auto simp: processSettings_def split: if_splits)
  from compileFilter_valid[OF e] processSettings_Ok(2)[OF s]
  show "Exclude config = [] \<or> reOK (strings_Join (Exclude config) ''|'')" by simp
  from compileFilter_valid[OF i] processSettings_Ok(3)[OF s]
  show "Include config = [] \<or> reOK (strings_Join (Include config) ''|'')" by simp
qed

text \<open>
  C1 (amended): when processConfig returns, config.Sort is the single key path if
  Checkstyle is set and JSON is not; otherwise it is the list that was configured.
\<close>

theorem processConfig_sort:
  assumes "processConfig tmplOK reOK config proc = Ok (inc, exc, config') proc'"
  shows "Sort config' = (if Checkstyle config \<and> \<not> JSON config then [''path''] else Sort config)"
  using assms by (elim processConfig_Ok_cases) (simp add: processSettings_Ok)

text \<open>
  With Checkstyle set, JSON unset and the sort key severity configured, processConfig
  leaves the single key path.
\<close>

theorem processConfig_sort_witness:
  "Checkstyle (exampleConfig\<lparr>Checkstyle := True, Sort := [''severity'']\<rparr>) \<and>
   (\<exists>inc exc config' proc'.
      processConfig (validTemplate exampleSys) (validRegexp exampleSys)
        (exampleConfig\<lparr>Checkstyle := True, Sort := [''severity'']\<rparr>) exampleProc = Ok (inc, exc, config') proc' \<and>
      Sort config' = [''path''])"
proof -
  let ?c = "exampleConfig\<lparr>Checkstyle := True, Sort := [''severity'']\<rparr>"
  let ?r = "processConfig (validTemplate exampleSys) (validRegexp exampleSys) ?c exampleProc"
  have "case ?r of Ok v p \<Rightarrow> True | Abort a p \<Rightarrow> False" by code_simp
  then obtain inc exc config' proc' where r: "?r = Ok (inc, exc, config') proc'"
    by (auto split: result.splits)
  have c: "Checkstyle ?c" "\<not> JSON ?c" by code_simp+
  from processConfig_sort[OF r] c r show ?thesis by simp
qed

text \<open>
  C1 as stated fails: with Checkstyle and JSON both set and the sort key severity
  configured, processConfig returns and the sort key list is still severity.
\<close>

theorem processConfig_sort_counterexample:
  "Checkstyle (exampleConfig\<lparr>Checkstyle := True, JSON := True, Sort := [''severity'']\<rparr>) \<and>
   (case processConfig (validTemplate exampleSys) (validRegexp exampleSys)
           (exampleConfig\<lparr>Checkstyle := True, JSON := True, Sort := [''severity'']\<rparr>) exampleProc of
      Ok (inc, exc, config') proc' \<Rightarrow> Sort config' = [''severity''] \<and> Sort config' \<noteq> [''path'']
    | Abort a proc' \<Rightarrow> False)"
  by code_simp

text \<open>
  C5: when processConfig returns, each of exclude and include is nil for an empty
  pattern list and otherwise the regular expression compiled from the patterns joined
  by a bar; processConfig calls the compiler once for each non-empty list, exclude
  first, and not at all for an empty one.
\<close>

theorem processConfig_filters:
  assumes "processConfig tmplOK reOK config proc = Ok (inc, exc, config') proc'"
  shows "exc = (if Exclude config = [] then None
                else Some (Regexp (strings_Join (Exclude config) ''|''))) \<and>
         inc = (if Include config = [] then None
                else Some (Regexp (strings_Join (Include config) ''|''))) \<and>
         compiled (events proc') =
           compiled (events proc) @
           (if Exclude config = [] then [] else [strings_Join (Exclude config) ''|'']) @
           (if Include config = [] then [] else [strings_Join (Include config) ''|''])"
proof -
  from assms obtain proc1 proc2 proc3 where
    s: "processSettings tmplOK config proc = Ok config' proc1"
    and e: "compileFilter reOK (Exclude config') proc1 = Ok exc proc2"
    and i: "compileFilter reOK (Include config') proc2 = Ok inc proc3"
    and p: "proc' = GOMAXPROCS (Concurrency config') proc3"
    by (rule processConfig_Ok_cases)
  note st = processSettings_Ok[OF s]
  from compileFilter_Ok[OF e] compileFilter_Ok[OF i] st p show ?thesis
    by simp
qed

text \<open>
  Two exclude patterns and no include pattern: exclude is the expression
  \<open>foo|bar\<close>, include is nil, and the compiler was called once.
\<close>

theorem processConfig_filters_witness:
  "\<exists>config' proc'.
      processConfig (validTemplate exampleSys) (validRegexp exampleSys)
        (exampleConfig\<lparr>Exclude := [''foo'', ''bar'']\<rparr>) exampleProc
        = Ok (None, Some (Regexp ''foo|bar''), config') proc' \<and>
      compiled (events proc') = [''foo|bar'']"
proof -
  let ?c = "exampleConfig\<lparr>Exclude := [''foo'', ''bar'']\<rparr>"
  let ?r = "processConfig (validTemplate exampleSys) (validRegexp exampleSys) ?c exampleProc"
  have "case ?r of Ok v p \<Rightarrow> True | Abort a p \<Rightarrow> False" by code_simp
  then obtain inc exc config' proc' where r: "?r = Ok (inc, exc, config') proc'"
    by (auto split: result.splits)
  have c: "Exclude ?c = [''foo'', ''bar'']" "Include ?c = []" "events exampleProc = []" by code_simp+
  from processConfig_filters[OF r] c r show ?thesis by simp
qed

section \<open>Properties: filepath.Walk and resolvePaths\<close>

text \<open>
  What every call of the walk function preserves, the walk preserves.
\<close>

lemma walk_invariant:
  shows "(\<forall>p d e s. I s \<longrightarrow> I (snd (fn p d e s))) \<Longrightarrow> I st \<Longrightarrow> I (snd (walk fn path node st))"
    and "(\<forall>p d e s. I s \<longrightarrow> I (snd (fn p d e s))) \<Longrightarrow> I st \<Longrightarrow> I (snd (walkNames fn path entries st))"
proof (induction fn path node st and fn path entries st rule: walk_walkNames.induct)
  case (1 walkFn path st)
  then show ?case by simp
next
  case (2 walkFn path st)
  then show ?case by simp
next
  case (3 walkFn path st)
  then show ?case by simp
next
  case (4 walkFn path entries st)
  obtain r st' where r: "walkFn path True None st = (r, st')" by (cases "walkFn path True None st")
  with "4.prems" have i: "I st'" by (metis snd_conv)
  show ?case
  proof (cases r)
    case None
    with "4.IH"[OF r[symmetric] None "4.prems"(1) i] r show ?thesis by simp
  next
    case (Some e)
    with r i show ?thesis by simp
  qed
next
  case (5 walkFn path st)
  then show ?case by simp
next
  case (6 walkFn path name node rest st)
  let ?f = "filepath_Join [path, name]"
  show ?case
  proof (cases "node = NoEntry")
    case True
    obtain r st' where r: "walkFn ?f False (Some ''lstat: no such file or directory'') st = (r, st')"
      by (cases "walkFn ?f False (Some ''lstat: no such file or directory'') st")
    with "6.prems" have i: "I st'" by (metis snd_conv)
    show ?thesis
    proof (cases r)
      case None
      from "6.IH"(1)[OF refl True r[symmetric] None "6.prems"(1) i] True r None show ?thesis by simp
    next
      case (Some e)
      show ?thesis
      proof (cases "e \<noteq> SkipDir")
        case t: True
        with True r Some i show ?thesis by simp
      next
        case f: False
        from "6.IH"(2)[OF refl True r[symmetric] Some f "6.prems"(1) i] True r Some f
        show ?thesis by simp
      qed
    qed
  next
    case False
    obtain r st' where r: "walk walkFn ?f node st = (r, st')" by (cases "walk walkFn ?f node st")
    from "6.IH"(3)[OF refl False "6.prems"] r have i: "I st'" by simp
    show ?thesis
    proof (cases r)
      case None
      from "6.IH"(4)[OF refl False r[symmetric] None "6.prems"(1) i] False r None show ?thesis by simp
    next
      case (Some e)
      show ?thesis
      proof (cases "\<not> IsDir node \<or> e \<noteq> SkipDir")
        case True
        with False r Some i show ?thesis by auto
      next
        case f: False
        from "6.IH"(5)[OF refl False r[symmetric] Some f "6.prems"(1) i] False r Some f show ?thesis by auto
      qed
    qed
  qed
qed

lemma filepath_Walk_invariant:
  assumes "\<forall>p d e s. I s \<longrightarrow> I (snd (fn p d e s))" and "I st"
  shows "I (snd (filepath_Walk fs root fn st))"
proof -
  from walk_invariant(1)[OF assms] have "I (snd (walk fn root (fs root) st))" .
  then show ?thesis
    by (auto simp: filepath_Walk_def split: prod.splits option.splits walkErr.splits)
qed

text \<open>
  The function given to the walk leaves its state as it is, adds a cleaned path to
  the set, or prints a warning; so the loop over the paths preserves what these steps
  preserve.
\<close>

lemma walkFn_cases:
  "snd (walkFn skip p d e (dirs, proc)) = (dirs, proc) \<or>
   (\<exists>x. snd (walkFn skip p d e (dirs, proc)) = (add (filepath_Clean x) dirs, proc)) \<or>
   (\<exists>m. snd (walkFn skip p d e (dirs, proc)) = (dirs, warning m proc))"
  by (auto simp: walkFn_def Let_def split: option.splits if_splits)

lemma pathsLoop_invariant:
  assumes add: "\<And>x dirs proc. I (dirs, proc) \<Longrightarrow> I (add (filepath_Clean x) dirs, proc)"
    and warn: "\<And>m dirs proc. I (dirs, proc) \<Longrightarrow> I (dirs, warning m proc)"
  shows "I st \<Longrightarrow> I (pathsLoop fs skip paths st)"
proof (induction paths arbitrary: st)
  case Nil
  then show ?case by simp
next
  case (Cons path paths)
  have w: "\<forall>p d e s. I s \<longrightarrow> I (snd (walkFn skip p d e s))"
  proof (intro allI impI)
    fix p d e s assume s: "I s"
    obtain dirs proc where [simp]: "s = (dirs, proc)" by (cases s)
    from walkFn_cases[of skip p d e dirs proc] s add warn show "I (snd (walkFn skip p d e s))"
      by auto
  qed
  show ?case
  proof (cases "strings_HasSuffix path ''/...''")
    case True
    from filepath_Walk_invariant[OF w Cons.prems]
    have "I (snd (filepath_Walk fs (filepath_Dir path) (walkFn skip) st))" .
    from Cons.IH[OF this] True show ?thesis by (simp add: Let_def)
  next
    case False
    obtain dirs proc where [simp]: "st = (dirs, proc)" by (cases st)
    from Cons.prems add have "I (add (filepath_Clean path) dirs, proc)" by simp
    from Cons.IH[OF this] False show ?thesis by simp
  qed
qed

lemma set_add [simp]: "set (add s items) = insert s (set items)"
  by (auto simp: add_def)

lemma distinct_add [simp]: "distinct (add s items) = distinct items"
  by (auto simp: add_def)

lemma pathsLoop_clean:
  assumes "distinct (fst st) \<and> set (fst st) \<subseteq> range filepath_Clean"
  shows "distinct (fst (pathsLoop fs skip paths st)) \<and>
         set (fst (pathsLoop fs skip paths st)) \<subseteq> range filepath_Clean"
  by (rule pathsLoop_invariant[where I = "\<lambda>st. distinct (fst st) \<and> set (fst st) \<subseteq> range filepath_Clean"])
     (use assms in auto)

lemma pathsLoop_grows:
  assumes "S \<subseteq> set (fst st)"
  shows "S \<subseteq> set (fst (pathsLoop fs skip paths st))"
  by (rule pathsLoop_invariant[where I = "\<lambda>st. S \<subseteq> set (fst st)"]) (use assms in auto)

lemma pathsLoop_explicit:
  assumes "path \<in> set paths" and "\<not> strings_HasSuffix path ''/...''"
  shows "filepath_Clean path \<in> set (fst (pathsLoop fs skip paths st))"
  using assms
proof (induction paths arbitrary: st)
  case Nil
  then show ?case by simp
next
  case (Cons p ps)
  show ?case
  proof (cases "path = p")
    case True
    obtain dirs proc where st: "st = (dirs, proc)" by (cases st)
    have "{filepath_Clean p} \<subseteq> set (fst (pathsLoop fs skip ps (add (filepath_Clean p) dirs, proc)))"
      by (rule pathsLoop_grows) simp
    with True Cons.prems(2) st show ?thesis by simp
  next
    case False
    with Cons.prems have "path \<in> set ps" by simp
    from Cons.IH[OF this Cons.prems(2)] show ?thesis
      by (cases st) (simp add: Let_def)
  qed
qed

lemma resolvePaths_nonempty:
  assumes "paths \<noteq> []"
  shows "fst (resolvePaths fs config paths skip proc) =
           sort (map relativePackagePath (fst (pathsLoop fs skip paths (newStringSet, proc))))"
  using assms by (simp add: resolvePaths_def asSlice_def Let_def split: prod.splits)

lemma resolvePaths_empty: "fst (resolvePaths fs config [] skip proc) = [''.'']"
  by (simp add: resolvePaths_def)

lemma resolvePaths_distinct:
  "distinct (fst (resolvePaths fs config paths skip proc))"
proof (cases "paths = []")
  case True
  then show ?thesis by (simp add: resolvePaths_empty)
next
  case False
  let ?dirs = "fst (pathsLoop fs skip paths (newStringSet, proc))"
  have inv: "distinct ?dirs \<and> set ?dirs \<subseteq> range filepath_Clean"
    by (rule pathsLoop_clean) (simp add: newStringSet_def)
  have "inj_on relativePackagePath (set ?dirs)"
  proof (rule inj_onI)
    fix a b assume "a \<in> set ?dirs" "b \<in> set ?dirs" "relativePackagePath a = relativePackagePath b"
    with inv show "a = b" by (auto dest: relativePackagePath_inj)
  qed
  with inv have "distinct (map relativePackagePath ?dirs)"
    by (simp add: distinct_map)
  with False show ?thesis
    by (simp add: resolvePaths_nonempty)
qed

lemma resolvePaths_sorted:
  "sorted (fst (resolvePaths fs config paths skip proc))"
  by (cases "paths = []") (simp_all add: resolvePaths_empty resolvePaths_nonempty)

text \<open>
  The result does not depend on the order in which \<open>asSlice\<close> lists the set: it is
  the sorted list of the set of package paths.
\<close>

lemma resolvePaths_sorted_list_of_set:
  assumes "paths \<noteq> []"
  shows "fst (resolvePaths fs config paths skip proc) =
     sorted_list_of_set (relativePackagePath ` set (fst (pathsLoop fs skip paths (newStringSet, proc))))"
proof -
  have "set (fst (resolvePaths fs config paths skip proc)) =
          relativePackagePath ` set (fst (pathsLoop fs skip paths (newStringSet, proc)))"
    using assms by (simp add: resolvePaths_nonempty)
  with resolvePaths_distinct[of fs config paths skip proc] resolvePaths_sorted[of fs config paths skip proc]
  show ?thesis
    by (metis sorted_list_of_set.idem_if_sorted_distinct)
qed

text \<open>
  C8: for every path list and skip list the list that resolvePaths returns has no
  duplicates and is sorted in ascending lexicographic order; for the empty path list it
  is the single entry \<open>.\<close>; and every entry is absolute, begins with \<open>.\<close> or
  begins with \<open>./\<close>.
\<close>

theorem resolvePaths_sorted_distinct:
  "distinct (fst (resolvePaths fs config paths skip proc)) \<and>
   sorted (fst (resolvePaths fs config paths skip proc)) \<and>
   (paths = [] \<longrightarrow> fst (resolvePaths fs config paths skip proc) = [''.'']) \<and>
   (\<forall>d \<in> set (fst (resolvePaths fs config paths skip proc)).
      filepath_IsAbs d \<or> strings_HasPrefix d ''.'' \<or> strings_HasPrefix d ''./'')"
proof (intro conjI impI ballI)
  show "distinct (fst (resolvePaths fs config paths skip proc))"
    by (rule resolvePaths_distinct)
  show "sorted (fst (resolvePaths fs config paths skip proc))"
    by (rule resolvePaths_sorted)
next
  assume "paths = []"
  then show "fst (resolvePaths fs config paths skip proc) = [''.'']"
    by (simp add: resolvePaths_empty)
next
  fix d assume d: "d \<in> set (fst (resolvePaths fs config paths skip proc))"
  show "filepath_IsAbs d \<or> strings_HasPrefix d ''.'' \<or> strings_HasPrefix d ''./''"
  proof (cases "paths = []")
    case True
    with d show ?thesis by (simp add: resolvePaths_empty strings_HasPrefix_def)
  next
    case False
    with d obtain x where "d = relativePackagePath x"
      by (auto simp: resolvePaths_nonempty)
    with relativePackagePath_form[of x] show ?thesis by simp
  qed
qed

text \<open>
  On the tree of the test \<open>TestResolvePathsWithExpands\<close>, with the paths and the
  skip list of the test, and on the empty path list.
\<close>

theorem resolvePaths_sorted_distinct_witness:
  "fst (resolvePaths testTree exampleConfig [''./...'', ''foo'', ''duplicate''] [''exclude'', ''other/exclude''] exampleProc)
     = [''.'', ''./duplicate'', ''./foo'', ''./include'', ''./include/foo''] \<and>
   distinct [''.'', ''./duplicate'', ''./foo'', ''./include'', ''./include/foo''] \<and>
   sorted [''.'', ''./duplicate'', ''./foo'', ''./include'', ''./include/foo''] \<and>
   fst (resolvePaths testTree exampleConfig [] [] exampleProc) = [''.''] \<and>
   strings_HasPrefix ''./foo'' ''./''"
proof -
  let ?r = "fst (resolvePaths testTree exampleConfig [''./...'', ''foo'', ''duplicate''] [''exclude'', ''other/exclude''] exampleProc)"
  have r: "?r = [''.'', ''./duplicate'', ''./foo'', ''./include'', ''./include/foo'']" by code_simp
  have h: "strings_HasPrefix ''./foo'' ''./''" by code_simp
  from resolvePaths_sorted_distinct[of testTree exampleConfig "[''./...'', ''foo'', ''duplicate'']" "[''exclude'', ''other/exclude'']" exampleProc]
       resolvePaths_sorted_distinct[of testTree exampleConfig "[]" "[]" exampleProc] h
  show ?thesis unfolding r by simp
qed

text \<open>
  C9: a path given without the suffix \<open>/...\<close> is in the result of resolvePaths, as
  the package path of its cleaned form, whatever the skip list holds and whatever its
  base name begins with; newPathFilter is applied only inside the walk of a path with
  the suffix.
\<close>

theorem resolvePaths_explicit_path:
  assumes "path \<in> set paths" and "\<not> strings_HasSuffix path ''/...''"
  shows "relativePackagePath (filepath_Clean path) \<in> set (fst (resolvePaths fs config paths skip proc))"
proof -
  from assms(1) have "paths \<noteq> []" by auto
  with pathsLoop_explicit[OF assms] show ?thesis
    by (simp add: resolvePaths_nonempty)
qed

text \<open>
  The path \<open>.git\<close> is on the skip list and begins with a dot, so the filter
  rejects it; given explicitly, it is in the result.
\<close>

theorem resolvePaths_explicit_path_witness:
  "''.git'' \<in> set [''.git'', ''vendor/''] \<and> \<not> strings_HasSuffix ''.git'' ''/...'' \<and>
   newPathFilter [''.git'', ''vendor''] ''.git'' \<and>
   ''.git'' \<in> set (fst (resolvePaths testTree exampleConfig [''.git'', ''vendor/''] [''.git'', ''vendor''] exampleProc))"
proof -
  have a: "''.git'' \<in> set [''.git'', ''vendor/'']" by simp
  have b: "\<not> strings_HasSuffix ''.git'' ''/...''" by code_simp
  have c: "newPathFilter [''.git'', ''vendor''] ''.git''" by code_simp
  have d: "relativePackagePath (filepath_Clean ''.git'') = ''.git''" by code_simp
  from resolvePaths_explicit_path[OF a b, of testTree exampleConfig "[''.git'', ''vendor'']" exampleProc] a b c d
  show ?thesis by simp
qed

section \<open>Properties: Run\<close>

text \<open>
  Nothing from \<open>configureEnvironment\<close> to \<open>lintersFromConfig\<close> calls
  \<open>runLinters\<close>.
\<close>

lemma jobs_append [simp]: "jobs (xs @ ys) = jobs xs @ jobs ys"
  by (induction xs rule: jobs.induct) auto

lemma events_debug:
  "events (debug config m p) = events p @ (if Debug config then [Stderr (''DEBUG: '' @ m @ newline)] else [])"
  by (simp add: debug_def)

lemma jobs_debug [simp]: "jobs (events (debug config m p)) = jobs (events p)"
  by (simp add: events_debug)

lemma jobs_warning [simp]: "jobs (events (warning m p)) = jobs (events p)"
  by simp

lemma jobs_setEnv [simp]: "jobs (events (setEnv k v p)) = jobs (events p)"
  by (auto simp: setEnv_def os_Setenv_def split: prod.splits option.splits)

lemma jobs_debugPrintEnv [simp]: "jobs (events (debugPrintEnv config p)) = jobs (events p)"
  by (simp add: debugPrintEnv_def Let_def)

lemma configureEnvironment_jobs:
  "configureEnvironment uc config proc = Ok u p \<Longrightarrow> jobs (events p) = jobs (events proc)"
  "configureEnvironment uc config proc = Abort a p \<Longrightarrow> jobs (events p) = jobs (events proc)"
  by (auto simp: configureEnvironment_def Let_def split: sum.splits)

lemma configureEnvironment_Ok:
  "configureEnvironment uc config proc = Ok u p \<Longrightarrow> \<not> (os_Getenv ''GOPATH'' proc = [] \<and> isl uc)"
  by (auto simp: configureEnvironment_def getGoPathList_def getGoPath_def Let_def split: sum.splits if_splits)

lemma processSettings_jobs:
  "processSettings tmplOK config proc = Ok c p \<Longrightarrow> jobs (events p) = jobs (events proc)"
  by (auto simp: processSettings_def Let_def dest!: os_Setenv_events split: if_splits prod.splits option.splits)

lemma compileFilter_jobs:
  "compileFilter reOK pats proc = Ok r p \<Longrightarrow> jobs (events p) = jobs (events proc)"
  "compileFilter reOK pats proc = Abort a p \<Longrightarrow> jobs (events p) = jobs (events proc)"
  by (auto simp: compileFilter_def MustCompile_def Let_def split: if_splits result.splits)

lemma processConfig_jobs:
  "processConfig tmplOK reOK config proc = Ok v p \<Longrightarrow> jobs (events p) = jobs (events proc)"
  "processConfig tmplOK reOK config proc = Abort a p \<Longrightarrow> jobs (events p) = jobs (events proc)"
  by (auto simp: processConfig_def dest!: processSettings_jobs processSettings_abort compileFilter_jobs split: result.splits)

lemma pathsLoop_jobs:
  "jobs (events (snd (pathsLoop fs skip paths st))) = jobs (events (snd st))"
  by (rule pathsLoop_invariant[where I = "\<lambda>s. jobs (events (snd s)) = jobs (events (snd st))"]) auto

lemma debugLoop_jobs [simp]: "jobs (events (debugLoop config ds p)) = jobs (events p)"
  by (induction ds arbitrary: p) auto

lemma resolvePaths_jobs:
  "jobs (events (snd (resolvePaths fs config paths skip proc))) = jobs (events proc)"
  using pathsLoop_jobs[of fs skip paths "(newStringSet, proc)"]
  by (auto simp: resolvePaths_def Let_def split: prod.splits)

lemma replaceWithMegacheck_jobs:
  "jobs (events (snd (replaceWithMegacheck en all p))) = jobs (events p)"
  by (auto simp: replaceWithMegacheck_def split: prod.splits)

lemma lintersFromConfig_jobs:
  "lintersFromConfig g config proc = Ok v p \<Longrightarrow> jobs (events p) = jobs (events proc)"
  "lintersFromConfig g config proc = Abort a p \<Longrightarrow> jobs (events p) = jobs (events proc)"
  using replaceWithMegacheck_jobs[of "Enable config" "EnableAll config" proc]
  by (auto simp: lintersFromConfig_def Let_def split: prod.splits sum.splits)

lemma prepare_jobs:
  "prepare sys paths config proc = Ok v p \<Longrightarrow> jobs (events p) = jobs (events proc)"
  "prepare sys paths config proc = Abort a p \<Longrightarrow> jobs (events p) = jobs (events proc)"
  using resolvePaths_jobs
  by (auto simp: prepare_def split: result.splits prod.splits
      dest!: configureEnvironment_jobs processConfig_jobs lintersFromConfig_jobs)
     (metis snd_conv)+

lemma prepare_valid:
  assumes "prepare sys paths config proc = Ok v p"
  shows "\<not> (os_Getenv ''GOPATH'' proc = [] \<and> isl (userCurrent sys))"
    and "validTemplate sys (Format config)"
    and "Exclude config = [] \<or> validRegexp sys (strings_Join (Exclude config) ''|'')"
    and "Include config = [] \<or> validRegexp sys (strings_Join (Include config) ''|'')"
  using assms
  by (auto simp: prepare_def split: result.splits prod.splits
      dest: configureEnvironment_Ok processConfig_valid)

text \<open>
  The three loops of the report: the errors, the console and the JSON renderer.
\<close>

lemma append_events_Nil [simp]: "append_events [] p = p"
  by (simp add: append_events_def)

lemma append_events_append [simp]: "append_events ys (append_events xs p) = append_events (xs @ ys) p"
  by (simp add: append_events_def)

lemma emit_append_events: "emit e p = append_events [e] p"
  by (simp add: emit_def append_events_def)

lemma warning_append_events: "warning m p = append_events [Stderr (''WARNING: '' @ m @ newline)] p"
  by (simp add: warning_def emit_append_events)

lemma errorsLoop_eq:
  "errorsLoop errs (s, p) = (if errs = [] then s else or s 2, append_events (warnings errs) p)"
proof (induction errs arbitrary: s p)
  case Nil
  then show ?case by (simp add: warnings_def)
next
  case (Cons e errs)
  have "or (or s 2) 2 = or s (2::int)"
    by (simp add: or.assoc)
  with Cons show ?case
    by (simp add: warnings_def warning_append_events)
qed

lemma consoleLoop_eq:
  "consoleLoop config f issues (s, p) =
     (if shown config issues = [] then s else 1,
      append_events (map (\<lambda>issue. Stdout (f issue @ newline)) (shown config issues)) p)"
  by (induction issues arbitrary: s p) (auto simp: shown_def emit_append_events)

lemma jsonLoop_status:
  "jsonLoop config m issues s p = Ok st p' \<Longrightarrow> st = (if shown config issues = [] then s else 1)"
proof (induction issues arbitrary: s p)
  case Nil
  then show ?case by (simp add: shown_def)
next
  case (Cons i issues)
  show ?case
  proof (cases "Errors config \<and> Severity i \<noteq> Error")
    case True
    with Cons show ?thesis by (simp add: shown_def)
  next
    case False
    with Cons.prems obtain d where "m i = Inr d"
      and "jsonLoop config m issues 1 (emit (Stdout (''  '' @ d)) (if s \<noteq> 0 then emit (Stdout ('','' @ newline)) p else p)) = Ok st p'"
      by (auto simp: Let_def split: sum.splits)
    from Cons.IH[OF this(2)] False show ?thesis by (auto simp: shown_def)
  qed
qed

lemma renderIssues_status:
  assumes "renderIssues sys config issues p = Ok st p'" and "JSON config \<or> \<not> Checkstyle config"
  shows "st = (if shown config issues = [] then 0 else 1)"
proof (cases "JSON config")
  case True
  with assms(1) obtain pj where "jsonLoop config (jsonMarshal sys) issues 0 (emit (Stdout (''['' @ newline)) p) = Ok st pj"
    by (auto simp: renderIssues_def outputToJSON_def split: result.splits)
  from jsonLoop_status[OF this] show ?thesis by simp
next
  case False
  with assms show ?thesis
    by (auto simp: renderIssues_def outputToConsole_def consoleLoop_eq)
qed

lemma renderIssues_console:
  assumes "\<not> JSON config" and "\<not> Checkstyle config"
  shows "renderIssues sys config issues p =
           Ok (if shown config issues = [] then 0 else 1)
              (append_events (map (\<lambda>issue. Stdout (issueString sys issue @ newline)) (shown config issues)) p)"
  using assms by (simp add: renderIssues_def outputToConsole_def consoleLoop_eq)

lemma lintAndReport_eq:
  assumes "runLinters sys config lmap rpaths (Concurrency config) exc inc = (issues, errs)"
    and "renderIssues sys config issues (emit (LintersRun rpaths) proc) = Ok st proc2"
  shows "lintAndReport sys config lmap rpaths exc inc proc =
           (Exited (or st (if errs = [] then 0 else 2)),
            debug config (''total elapsed time '' @ elapsed sys) (append_events (warnings errs) proc2))"
  using assms by (simp add: lintAndReport_def errorsLoop_eq)

text \<open>
  C2 (amended): when Run lints (Install is not set), a format that does not parse, an
  exclude or include pattern that does not compile and a linter set that
  validateLinters rejects end the run with an abort before runLinters is called. They
  are not the only errors that do: so does a failed lookup of the current user when
  GOPATH is not set.
\<close>

theorem Run_startup_errors:
  assumes "\<not> Install config"
    and "(os_Getenv ''GOPATH'' proc = [] \<and> isl (userCurrent sys)) \<or>
         \<not> validTemplate sys (Format config) \<or>
         (Exclude config \<noteq> [] \<and> \<not> validRegexp sys (strings_Join (Exclude config) ''|'')) \<or>
         (Include config \<noteq> [] \<and> \<not> validRegexp sys (strings_Join (Include config) ''|'')) \<or>
         (\<exists>v p. prepare sys paths config proc = Ok v p \<and>
                validateLinters sys (linters v) (configuration v) \<noteq> None)"
  shows "\<exists>a c p. Run sys paths config proc = (Aborted a, c, p) \<and> jobs (events p) = jobs (events proc)"
proof (cases "prepare sys paths config proc")
  case (Abort a p)
  with assms(1) prepare_jobs(2)[OF Abort] show ?thesis
    by (simp add: Run_def)
next
  case (Ok v p)
  from prepare_valid[OF Ok] assms(2) Ok obtain err where "validateLinters sys (linters v) (configuration v) = Some err"
    by auto
  with assms(1) Ok prepare_jobs(1)[OF Ok] show ?thesis
    by (simp add: Run_def)
qed

text \<open>
  The format \<open>{{\<close> does not parse: the run aborts and no job has run.
\<close>

theorem Run_startup_errors_witness:
  "\<not> Install (exampleConfig\<lparr>Format := ''{{''\<rparr>) \<and>
   \<not> validTemplate exampleSys (Format (exampleConfig\<lparr>Format := ''{{''\<rparr>)) \<and>
   (\<exists>a c p. Run exampleSys [] (exampleConfig\<lparr>Format := ''{{''\<rparr>) exampleProc = (Aborted a, c, p) \<and>
            jobs (events p) = [])"
proof -
  let ?c = "exampleConfig\<lparr>Format := ''{{''\<rparr>"
  have i: "\<not> Install ?c" by code_simp
  have t: "\<not> validTemplate exampleSys (Format ?c)" by code_simp
  have e: "jobs (events exampleProc) = []" by code_simp
  from Run_startup_errors[of ?c exampleProc exampleSys "[]", OF i] i t e show ?thesis by simp
qed

text \<open>
  C2 as stated fails: with GOPATH unset and no current user the run aborts, although
  the format parses, there are no patterns and validateLinters accepts every linter
  set.
\<close>

theorem Run_other_abort_counterexample:
  "fst (Run (exampleSys\<lparr>userCurrent := Inl ''user: Current not implemented''\<rparr>) []
          exampleConfig (exampleProc\<lparr>environ := Map.empty\<rparr>))
     = Aborted (Fatal ''user: Current not implemented'') \<and>
   validTemplate exampleSys (Format exampleConfig) \<and>
   Exclude exampleConfig = [] \<and> Include exampleConfig = [] \<and>
   validateLinters exampleSys = acceptLinters"
proof (intro conjI)
  show "validateLinters exampleSys = acceptLinters" by (simp add: exampleSys_def)
qed code_simp+

text \<open>
  The JSON renderer: what it writes when every issue shown marshals, and its abort at
  the first that does not.
\<close>

lemma stderrOf_append [simp]: "stderrOf (xs @ ys) = stderrOf xs @ stderrOf ys"
  by (induction xs rule: stderrOf.induct) auto

lemma stderrOf_jsonItems [simp]: "stderrOf (jsonItems comma ds) = []"
  by (induction ds arbitrary: comma) auto

lemma events_append_events [simp]: "events (append_events es p) = events p @ es"
  by (simp add: append_events_def)













text \<open>
  On the console no rendering can fail: a run that reaches runLinters exits.
\<close>

lemma Run_console_exits:
  assumes "\<not> Install config"
    and "prepare sys paths config proc = Ok v proc1"
    and "validateLinters sys (linters v) (configuration v) = None"
    and "\<not> JSON (configuration v)" and "\<not> Checkstyle (configuration v)"
  shows "\<exists>status proc'. Run sys paths config proc = (Exited status, configuration v, proc')"
proof -
  obtain issues errs where
    r: "runLinters sys (configuration v) (linters v) (resolvedPaths v)
          (Concurrency (configuration v)) (excludeFilter v) (includeFilter v) = (issues, errs)"
    by (cases "runLinters sys (configuration v) (linters v) (resolvedPaths v)
          (Concurrency (configuration v)) (excludeFilter v) (includeFilter v)")
  from assms(1,2,3) lintAndReport_eq[OF r renderIssues_console[OF assms(4,5)]]
  show ?thesis by (simp add: Run_def)
qed

text \<open>
  The aborts of a run that lints, by their cause: the lookup of the current user, the
  format, a pattern, a nil linter read under the fast-only option, the verdict of
  validateLinters, and, once the jobs have run, a renderer that fails (JSON
  marshalling, or the checkstyle renderer).
\<close>

lemma configureEnvironment_Abort:
  "configureEnvironment uc config proc = Abort a p \<Longrightarrow> os_Getenv ''GOPATH'' proc = [] \<and> isl uc"
  by (auto simp: configureEnvironment_def getGoPathList_def getGoPath_def Let_def split: sum.splits if_splits)

lemma processConfig_Abort:
  assumes "processConfig tmplOK reOK config proc = Abort a p"
  shows "\<not> tmplOK (Format config) \<or>
         (Exclude config \<noteq> [] \<and> \<not> reOK (strings_Join (Exclude config) ''|'')) \<or>
         (Include config \<noteq> [] \<and> \<not> reOK (strings_Join (Include config) ''|''))"
  using processConfig_total[of tmplOK config reOK proc] assms by auto

lemma processSettings_Fast:
  "processSettings tmplOK config proc = Ok c p \<Longrightarrow> Fast c = Fast config"
  by (auto simp: processSettings_def Let_def split: if_splits prod.splits)

lemma processConfig_Fast:
  "processConfig tmplOK reOK config proc = Ok (inc, exc, c) p \<Longrightarrow> Fast c = Fast config"
  by (elim processConfig_Ok_cases) (simp add: processSettings_Fast)

lemma lintersFromConfig_Abort:
  assumes "lintersFromConfig getLinter config proc = Abort a p"
  shows "Fast config \<and> (\<exists>name conf. getLinter name conf = None)"
proof (rule ccontr)
  assume "\<not> (Fast config \<and> (\<exists>name conf. getLinter name conf = None))"
  then have "\<not> Fast config \<or> (\<forall>name conf. getLinter name conf \<noteq> None)" by auto
  from lintersFromConfig_total[OF this, of proc] assms show False by auto
qed

lemma prepare_Abort:
  assumes "prepare sys paths config proc = Abort a p"
  shows "(os_Getenv ''GOPATH'' proc = [] \<and> isl (userCurrent sys)) \<or>
         \<not> validTemplate sys (Format config) \<or>
         (Exclude config \<noteq> [] \<and> \<not> validRegexp sys (strings_Join (Exclude config) ''|'')) \<or>
         (Include config \<noteq> [] \<and> \<not> validRegexp sys (strings_Join (Include config) ''|'')) \<or>
         (Fast config \<and> (\<exists>name conf. getLinterByName sys name conf = None))"
proof (cases "configureEnvironment (userCurrent sys) config proc")
  case (Abort a1 p1)
  from configureEnvironment_Abort[OF this] show ?thesis by simp
next
  case (Ok u p1)
  show ?thesis
  proof (cases "processConfig (validTemplate sys) (validRegexp sys) config p1")
    case (Abort a2 p2)
    from processConfig_Abort[OF this] show ?thesis by blast
  next
    case o2: (Ok v p2)
    obtain inc exc c where v: "v = (inc, exc, c)" by (cases v)
    obtain rp p3 where r: "resolvePaths (lstat sys) c paths (Skip c) p2 = (rp, p3)"
      by (cases "resolvePaths (lstat sys) c paths (Skip c) p2")
    from assms Ok o2 v r obtain a4 p4 where "lintersFromConfig (getLinterByName sys) c p3 = Abort a4 p4"
      by (auto simp: prepare_def split: result.splits)
    from lintersFromConfig_Abort[OF this] processConfig_Fast[OF o2[unfolded v]] show ?thesis by simp
  qed
qed

lemma lintAndReport_Aborted:
  assumes "lintAndReport sys config lmap rpaths exc inc proc = (Aborted a, p)"
  shows "\<exists>issues errs. runLinters sys config lmap rpaths (Concurrency config) exc inc = (issues, errs) \<and>
           renderIssues sys config issues (emit (LintersRun rpaths) proc) = Abort a p"
  using assms
  by (auto simp: lintAndReport_def errorsLoop_eq split: prod.splits result.splits)

lemma renderIssues_Abort:
  assumes "renderIssues sys config issues proc = Abort a p"
  shows "(JSON config \<and> (\<exists>issue \<in> set issues. isl (jsonMarshal sys issue))) \<or>
         (\<not> JSON config \<and> Checkstyle config \<and> outputToCheckstyle sys config issues proc = Abort a p)"
proof -
  have j: "jsonLoop c m is s q = Abort a p \<Longrightarrow> \<exists>issue \<in> set is. isl (m issue)" for c m "is" s q
    by (induction "is" arbitrary: s q) (auto simp: Let_def split: if_splits sum.splits)
  from assms show ?thesis
    by (auto simp: renderIssues_def outputToJSON_def outputToConsole_def split: if_splits result.splits prod.splits dest: j)
qed

lemma Run_abort_cases:
  assumes "\<not> Install config" and "Run sys paths config proc = (Aborted a, c, p)"
  shows "(os_Getenv ''GOPATH'' proc = [] \<and> isl (userCurrent sys)) \<or>
         \<not> validTemplate sys (Format config) \<or>
         (Exclude config \<noteq> [] \<and> \<not> validRegexp sys (strings_Join (Exclude config) ''|'')) \<or>
         (Include config \<noteq> [] \<and> \<not> validRegexp sys (strings_Join (Include config) ''|'')) \<or>
         (Fast config \<and> (\<exists>name conf. getLinterByName sys name conf = None)) \<or>
         (\<exists>v p1. prepare sys paths config proc = Ok v p1 \<and>
            (validateLinters sys (linters v) (configuration v) \<noteq> None \<or>
             (\<exists>issues. renderIssues sys (configuration v) issues (emit (LintersRun (resolvedPaths v)) p1)
                        = Abort a p)))"
proof (cases "prepare sys paths config proc")
  case (Abort a1 p1)
  from prepare_Abort[OF this] show ?thesis by blast
next
  case (Ok v p1)
  show ?thesis
  proof (cases "validateLinters sys (linters v) (configuration v)")
    case (Some err)
    with Ok show ?thesis by simp
  next
    case None
    with assms Ok have "lintAndReport sys (configuration v) (linters v) (resolvedPaths v)
                          (excludeFilter v) (includeFilter v) p1 = (Aborted a, p)"
      by (auto simp: Run_def split: prod.splits)
    from lintAndReport_Aborted[OF this] Ok show ?thesis by blast
  qed
qed

section \<open>Properties: the sort keys\<close>

lemma sortFlag_accepts:
  "set vs \<subseteq> set sortKeys \<Longrightarrow> sortFlag vs config = Inr (config\<lparr>Sort := Sort config @ vs\<rparr>)"
  by (induction vs arbitrary: config) (auto simp: enumsSet_def)

lemma sortFlag_rejects:
  "\<not> set vs \<subseteq> set sortKeys \<Longrightarrow> \<exists>err. sortFlag vs config = Inl err"
  by (induction vs arbitrary: config) (auto simp: enumsSet_def)

text \<open>
  C4 (amended): the values given to the flag \<open>--sort\<close> are drawn from the fixed
  list of sort keys: when all are in the list they are appended to the sort key list,
  and any other value is rejected when the flag is parsed. A configuration file is not
  checked: loadConfig stores the sort key list as it was decoded.
\<close>

theorem sort_keys_checked_by_flag:
  "(set vs \<subseteq> set sortKeys \<longrightarrow> sortFlag vs config = Inr (config\<lparr>Sort := Sort config @ vs\<rparr>)) \<and>
   (\<not> set vs \<subseteq> set sortKeys \<longrightarrow> (\<exists>err. sortFlag vs config = Inl err)) \<and>
   (files name = Decoded decode \<longrightarrow>
      (\<exists>c. loadConfig files name config = Inr c \<and> Sort c = Sort (decode config)))"
  by (simp add: sortFlag_accepts sortFlag_rejects loadConfig_def Let_def)

text \<open>
  Two keys of the list are accepted, a value outside it is rejected, and the file
  with the key bogus is loaded.
\<close>

theorem sort_keys_checked_by_flag_witness:
  "sortFlag [''path'', ''line''] exampleConfig = Inr (exampleConfig\<lparr>Sort := [''none'', ''path'', ''line'']\<rparr>) \<and>
   (\<exists>err. sortFlag [''path'', ''bogus''] exampleConfig = Inl err) \<and>
   (\<exists>c. loadConfig bogusSortFile ''config.json'' exampleConfig = Inr c \<and> Sort c = [''bogus''])"
proof -
  have a: "set [''path'', ''line''] \<subseteq> set sortKeys" by code_simp
  have b: "\<not> set [''path'', ''bogus''] \<subseteq> set sortKeys" by code_simp
  have c: "bogusSortFile ''config.json'' = Decoded (\<lambda>config. config\<lparr>Sort := [''bogus'']\<rparr>)"
    by (simp add: bogusSortFile_def)
  have d: "Sort exampleConfig = [''none'']" by code_simp
  from sort_keys_checked_by_flag[of "[''path'', ''line'']" exampleConfig bogusSortFile "''config.json''" "\<lambda>config. config\<lparr>Sort := [''bogus'']\<rparr>"]
       sort_keys_checked_by_flag[of "[''path'', ''bogus'']" exampleConfig]
       a b c d
  show ?thesis by simp
qed

text \<open>
  C4 as stated fails: the key bogus is not in the list, loadConfig accepts a file
  that holds it, and Run then lints and exits with this key still in the sort key
  list.
\<close>

theorem sort_key_from_file_counterexample:
  "''bogus'' \<notin> set sortKeys \<and>
   (case loadConfig bogusSortFile ''config.json'' exampleConfig of
      Inl err \<Rightarrow> False
    | Inr c \<Rightarrow> Sort c = [''bogus''] \<and>
              fst (Run exampleSys [] c exampleProc) = Exited 3 \<and>
              Sort (fst (snd (Run exampleSys [] c exampleProc))) = [''bogus''])"
  by code_simp

section \<open>The tests of the repository on the model\<close>

text \<open>
  \<open>TestRelativePackagePath\<close>, \<open>TestResolvePathsNoExpands\<close>, \<open>TestPathFilter\<close>
  and \<open>TestAddPath\<close>.
\<close>

lemma TestRelativePackagePath:
  "map relativePackagePath [''/abs/path'', ''.'', ''./foo'', ''relative/path'']
     = [''/abs/path'', ''.'', ''./foo'', ''./relative/path'']"
  by code_simp

lemma TestResolvePathsNoExpands:
  "fst (resolvePaths testTree exampleConfig [''.'', ''foo'', ''foo/bar''] [''foo/bar''] exampleProc)
     = [''.'', ''./foo'', ''./foo/bar'']"
  by code_simp

lemma TestPathFilter:
  "map (newPathFilter [''exclude'', ''skip.go''])
       [''exclude'', ''something/skip.go'', ''skip.go'', ''.git'', ''_ignore'', ''include.go'', ''.'', ''..'']
     = [True, True, True, True, True, False, False, False]"
  by code_simp

lemma TestAddPath:
  "addPath [''existing''] ''existing'' = [''existing''] \<and>
   addPath [''existing''] ''new'' = [''existing'', ''new'']"
  by code_simp

end
